theory Spec2Isabelle
  imports Complex_Main "HOL-Library.Log_Nat" "HOL-Library.Sublist"
begin

section \<open>JavaScript numbers\<close>

text \<open>
  The scoring code of the edge function computes with JavaScript numbers, that is with
  IEEE 754 double-precision values: every arithmetic operation returns the exact result
  rounded to the nearest double, the even one at a tie, with gradual underflow, overflow
  to an infinity, two zeros and NaN. The finite values are kept as the reals they denote.
\<close>

text \<open>
  The binary exponent of a positive real: \<open>ilog2 x = e\<close> when \<open>2^e \<le> x < 2^(e+1)\<close>.
\<close>

definition ilog2 :: "real \<Rightarrow> int" where
  "ilog2 x = (if 1 \<le> x then bitlen \<lfloor>x\<rfloor> - 1 else - bitlen (\<lceil>1 / x\<rceil> - 1))"

text \<open>The nearest integer, the even one when two integers are equally near.\<close>

definition round_half_even :: "real \<Rightarrow> int" where
  "round_half_even y =
     (let f = \<lfloor>y\<rfloor>; d = y - of_int f
      in if d < 1 / 2 then f else if 1 / 2 < d then f + 1 else if even f then f else f + 1)"

text \<open>
  The exponent of the unit in the last place of the doubles around \<open>x\<close> (53 significant
  bits; below \<open>2^-1022\<close> the subnormal doubles are the multiples of \<open>2^-1074\<close>), and the
  rounding of a real to the grid of these multiples.
\<close>

definition ulp_exp :: "real \<Rightarrow> int" where
  "ulp_exp x = max (- 1022) (ilog2 \<bar>x\<bar>) - 52"

definition round_double :: "real \<Rightarrow> real" where
  "round_double x =
     (if x = 0 then 0
      else of_int (round_half_even (x / 2 powi ulp_exp x)) * 2 powi ulp_exp x)"

text \<open>A number: a finite value (\<open>Num 0\<close> is the positive zero), the negative zero, or special.\<close>

datatype number = Num real | NegZero | PosInf | NegInf | NaN

fun is_nan :: "number \<Rightarrow> bool" where
  "is_nan NaN = True"
| "is_nan _ = False"

fun is_inf :: "number \<Rightarrow> bool" where
  "is_inf PosInf = True"
| "is_inf NegInf = True"
| "is_inf _ = False"

fun is_zero :: "number \<Rightarrow> bool" where
  "is_zero (Num a) = (a = 0)"
| "is_zero NegZero = True"
| "is_zero _ = False"

fun sign_bit :: "number \<Rightarrow> bool" where
  "sign_bit (Num a) = (a < 0)"
| "sign_bit NegZero = True"
| "sign_bit NegInf = True"
| "sign_bit _ = False"

fun val :: "number \<Rightarrow> real" where
  "val (Num a) = a"
| "val _ = 0"

definition signed_zero :: "bool \<Rightarrow> number" where
  "signed_zero negative = (if negative then NegZero else Num 0)"

definition signed_inf :: "bool \<Rightarrow> number" where
  "signed_inf negative = (if negative then NegInf else PosInf)"

text \<open>
  The double nearest to a real that is not zero: an infinity from \<open>2^1024\<close> on, and a zero
  with the sign of the real when it rounds to zero.
\<close>

definition fl :: "real \<Rightarrow> number" where
  "fl x =
     (let r = round_double x
      in if 2 ^ 1024 \<le> \<bar>r\<bar> then signed_inf (x < 0)
         else if r = 0 then signed_zero (x < 0)
         else Num r)"

fun js_neg :: "number \<Rightarrow> number" where
  "js_neg (Num a) = (if a = 0 then NegZero else Num (- a))"
| "js_neg NegZero = Num 0"
| "js_neg PosInf = NegInf"
| "js_neg NegInf = PosInf"
| "js_neg NaN = NaN"

definition js_add :: "number \<Rightarrow> number \<Rightarrow> number" where
  "js_add a b =
     (if is_nan a \<or> is_nan b then NaN
      else if is_inf a then (if is_inf b \<and> a \<noteq> b then NaN else a)
      else if is_inf b then b
      else
        let s = val a + val b
        in if s = 0 then signed_zero (sign_bit a \<and> sign_bit b) else fl s)"

definition js_sub :: "number \<Rightarrow> number \<Rightarrow> number" where
  "js_sub a b = js_add a (js_neg b)"

definition js_mul :: "number \<Rightarrow> number \<Rightarrow> number" where
  "js_mul a b =
     (if is_nan a \<or> is_nan b then NaN
      else if is_inf a \<or> is_inf b
      then (if is_zero a \<or> is_zero b then NaN else signed_inf (sign_bit a \<noteq> sign_bit b))
      else
        let p = val a * val b
        in if p = 0 then signed_zero (sign_bit a \<noteq> sign_bit b) else fl p)"

definition js_div :: "number \<Rightarrow> number \<Rightarrow> number" where
  "js_div a b =
     (if is_nan a \<or> is_nan b then NaN
      else if is_inf a
      then (if is_inf b then NaN else signed_inf (sign_bit a \<noteq> sign_bit b))
      else if is_inf b then signed_zero (sign_bit a \<noteq> sign_bit b)
      else if is_zero b
      then (if is_zero a then NaN else signed_inf (sign_bit a \<noteq> sign_bit b))
      else if is_zero a then signed_zero (sign_bit a \<noteq> sign_bit b)
      else fl (val a / val b))"

text \<open>
  The comparisons \<open>a > b\<close> and \<open>a < b\<close>: false as soon as one side is NaN, and the two zeros
  are equal.
\<close>

definition js_gt :: "number \<Rightarrow> number \<Rightarrow> bool" where
  "js_gt a b =
     (\<not> is_nan a \<and> \<not> is_nan b \<and>
      (if a = PosInf then b \<noteq> PosInf
       else if b = NegInf then a \<noteq> NegInf
       else if a = NegInf \<or> b = PosInf then False
       else val b < val a))"

definition js_lt :: "number \<Rightarrow> number \<Rightarrow> bool" where
  "js_lt a b = js_gt b a"

text \<open>\<open>Math.abs\<close>, \<open>Math.min\<close> of two numbers, and \<open>Math.floor\<close>, which are exact.\<close>

fun Math_abs :: "number \<Rightarrow> number" where
  "Math_abs (Num a) = Num \<bar>a\<bar>"
| "Math_abs NegZero = Num 0"
| "Math_abs PosInf = PosInf"
| "Math_abs NegInf = PosInf"
| "Math_abs NaN = NaN"

definition Math_min :: "number \<Rightarrow> number \<Rightarrow> number" where
  "Math_min a b =
     (if is_nan a \<or> is_nan b then NaN
      else if js_gt a b then b
      else if js_gt b a then a
      else if is_zero a \<and> sign_bit b then b
      else a)"

fun Math_floor :: "number \<Rightarrow> number" where
  "Math_floor (Num a) = Num (of_int \<lfloor>a\<rfloor>)"
| "Math_floor x = x"

text \<open>
  \<open>Number(x.toFixed(2))\<close>. \<open>toFixed\<close> sets the sign aside, takes the integer \<open>n\<close> for which
  \<open>n / 100\<close> is nearest to the exact magnitude (the larger one at a tie) and prints it with
  two decimals; from \<open>10^21\<close> on it prints the number as \<open>String\<close> does. \<open>Number\<close> reads the
  decimal back as the nearest double, and \<open>-0.00\<close> as the negative zero. NaN and the
  infinities print as their names and read back.
\<close>

fun toFixed2 :: "number \<Rightarrow> number" where
  "toFixed2 (Num a) =
     (if 10 ^ 21 \<le> \<bar>a\<bar> then Num a
      else if a < 0
      then (let n = \<lfloor>(- a) * 100 + 1 / 2\<rfloor>
            in if n = 0 then NegZero else fl (- (of_int n / 100)))
      else (let n = \<lfloor>a * 100 + 1 / 2\<rfloor>
            in if n = 0 then Num 0 else fl (of_int n / 100)))"
| "toFixed2 NegZero = Num 0"
| "toFixed2 x = x"

text \<open>The numbers that \<open>||\<close> skips: the zeros and NaN.\<close>

definition falsy :: "number \<Rightarrow> bool" where
  "falsy x = (is_zero x \<or> is_nan x)"

section \<open>Arrays, strings and the runtime library\<close>

text \<open>
  Reading \<open>xs[i]\<close>: \<open>None\<close> is \<open>undefined\<close>, the value of a read outside the array.
  \<open>xs.slice(-k)\<close> keeps the last \<open>k\<close> elements, or all of them when there are fewer, and
  \<open>xs.reduce((a, b) => a + b, 0)\<close> adds from the left, starting from zero. A length is
  below \<open>2^32\<close> and is an exact number.
\<close>

definition js_index :: "'a list \<Rightarrow> int \<Rightarrow> 'a option" where
  "js_index xs i = (if 0 \<le> i \<and> i < int (length xs) then Some (xs ! nat i) else None)"

definition slice_last :: "nat \<Rightarrow> 'a list \<Rightarrow> 'a list" where
  "slice_last k xs = drop (length xs - k) xs"

definition reduce_sum :: "number list \<Rightarrow> number" where
  "reduce_sum xs = foldl (\<lambda>a b. js_add a b) (Num 0) xs"

definition js_length :: "'a list \<Rightarrow> number" where
  "js_length xs = Num (real (length xs))"

text \<open>
  A string is the sequence of its UTF-16 code units; \<open>utf16\<close> gives the string of an ASCII
  literal. \<open>s.includes(word)\<close> holds when \<open>word\<close> starts at some position of \<open>s\<close>.
\<close>

type_synonym js_string = "nat list"

definition utf16 :: "string \<Rightarrow> js_string" where
  "utf16 s = map of_char s"

fun starts_with :: "js_string \<Rightarrow> js_string \<Rightarrow> bool" where
  "starts_with s [] = True"
| "starts_with [] (w # ws) = False"
| "starts_with (c # cs) (w # ws) = (c = w \<and> starts_with cs ws)"

fun str_includes :: "js_string \<Rightarrow> js_string \<Rightarrow> bool" where
  "str_includes [] word = (word = [])"
| "str_includes (c # cs) word = (starts_with (c # cs) word \<or> str_includes cs word)"

text \<open>
  The library functions whose results the language leaves to the implementation
  (\<open>Math.pow\<close>, \<open>Math.sqrt\<close>) or takes from the Unicode tables
  (\<open>String.prototype.toLowerCase\<close>) are parameters of the model. None of them throws on
  the arguments the code gives them.
\<close>

record runtime =
  Math_pow :: "number \<Rightarrow> number \<Rightarrow> number"
  Math_sqrt :: "number \<Rightarrow> number"
  toLowerCase :: "js_string \<Rightarrow> js_string"

section \<open>Data model\<close>

record MarketData =
  date :: string
  close :: number
  volume :: number
  high :: number
  low :: number
  "open" :: number

datatype action = BUY | SELL | HOLD

text \<open>
  The row of the \<open>strategies\<close> table that \<open>analyzeMarket\<close> reads, with the fields it uses.
\<close>

record Strategy =
  symbols :: "js_string list"
  stop_loss_percentage :: number
  risk_level :: js_string

record TechnicalIndicators =
  rsi :: number
  sma_20 :: number
  sma_50 :: number
  macd :: number
  volume_trend :: string

record SentimentAnalysis =
  overall_sentiment :: string
  sentiment_confidence :: number
  sources_analyzed :: nat

text \<open>
  The signal, without its \<open>timestamp\<close> and \<open>rationale\<close> (the wall clock and a formatted
  sentence).
\<close>

record AISignal =
  symbol :: js_string
  action :: action
  confidence :: number
  price_target :: number
  stop_loss :: number
  technical_indicators :: TechnicalIndicators
  sentiment_analysis :: SentimentAnalysis

text \<open>
  What the code can throw: reading a property of \<open>undefined\<close>, the missing strategy, and
  the \<open>RangeError\<close> of \<open>toISOString\<close> on an invalid date.
\<close>

datatype error = TypeError | StrategyNotFound | RangeError

definition get_close :: "MarketData option \<Rightarrow> error + number" where
  "get_close b = (case b of None \<Rightarrow> Inl TypeError | Some d \<Rightarrow> Inr (close d))"

section \<open>Technical analysis\<close>

definition calculateTechnicalScore :: "MarketData list \<Rightarrow> error + number" where
  "calculateTechnicalScore marketData =
     (if length marketData < 2 then Inr (Num 0.5)
      else
        case get_close (js_index marketData (int (length marketData) - 1)) of
          Inl e \<Rightarrow> Inl e
        | Inr latestClose \<Rightarrow>
       (case get_close (js_index marketData (int (length marketData) - 2)) of
          Inl e \<Rightarrow> Inl e
        | Inr previousClose \<Rightarrow>
          let priceChange = js_div (js_sub latestClose previousClose) previousClose;
              recentPrices = map close (slice_last 20 marketData);
              sma = js_div (reduce_sum recentPrices) (js_length recentPrices);
              trendScore = (if js_gt latestClose sma then fl 0.6 else fl 0.4);
              momentumScore = (if js_gt priceChange (Num 0) then fl 0.6 else fl 0.4)
          in Inr (js_div (js_add trendScore momentumScore) (Num 2))))"

text \<open>
  The loop of \<open>calculateRSI\<close>, from index \<open>i\<close> on, with the two running sums. A read
  outside the array would give \<open>undefined\<close>, and NaN in the subtraction.
\<close>

definition num_at :: "number list \<Rightarrow> int \<Rightarrow> number" where
  "num_at prices i = (case js_index prices i of None \<Rightarrow> NaN | Some p \<Rightarrow> p)"

function rsi_loop :: "number list \<Rightarrow> int \<Rightarrow> number \<times> number \<Rightarrow> number \<times> number" where
  "rsi_loop prices i (gains, losses) =
     (if i < int (length prices) then
        let change = js_sub (num_at prices i) (num_at prices (i - 1))
        in if js_gt change (Num 0)
           then rsi_loop prices (i + 1) (js_add gains change, losses)
           else rsi_loop prices (i + 1) (gains, js_sub losses change)
      else (gains, losses))"
  by pat_completeness auto
termination
  by (relation "measure (\<lambda>(prices, i, acc). nat (int (length prices) - i))") auto

definition calculateRSI :: "number list \<Rightarrow> nat \<Rightarrow> number" where
  "calculateRSI prices period =
     (if length prices < period + 1 then Num 50
      else
        let (gains, losses) = rsi_loop prices (int (length prices) - int period) (Num 0, Num 0);
            avgGain = js_div gains (Num (real period));
            avgLoss = js_div losses (Num (real period))
        in if is_zero avgLoss then Num 100
           else
             let rs = js_div avgGain avgLoss
             in js_sub (Num 100) (js_div (Num 100) (js_add (Num 1) rs)))"

text \<open>
  \<open>marketData[marketData.length - 1]?.close || 50000\<close>: the close of the last bar, and
  50000 when there is no bar or that close is a zero or NaN.
\<close>

definition last_close_or_default :: "MarketData list \<Rightarrow> number" where
  "last_close_or_default marketData =
     (case js_index marketData (int (length marketData) - 1) of
        None \<Rightarrow> Num 50000
      | Some d \<Rightarrow> if falsy (close d) then Num 50000 else close d)"

definition calculateTechnicalIndicators :: "MarketData list \<Rightarrow> TechnicalIndicators" where
  "calculateTechnicalIndicators marketData =
     (if length marketData < 14 then
        \<lparr> rsi = Num 50,
          sma_20 = last_close_or_default marketData,
          sma_50 = last_close_or_default marketData,
          macd = Num 0,
          volume_trend = ''neutral'' \<rparr>
      else
        let closes = map close marketData;
            volumes = map volume marketData;
            rsi_v = calculateRSI closes 14;
            sma20 = js_div (reduce_sum (slice_last 20 closes)) (Num 20);
            sma50 = js_div (reduce_sum (slice_last 50 closes))
                      (Num (real (min 50 (length closes))));
            avgVolume = js_div (reduce_sum (slice_last 20 volumes)) (Num 20);
            latestVolume = num_at volumes (int (length volumes) - 1);
            volumeTrend = (if js_gt latestVolume avgVolume then ''increasing'' else ''decreasing'')
        in \<lparr> rsi = toFixed2 rsi_v,
             sma_20 = toFixed2 sma20,
             sma_50 = toFixed2 sma50,
             macd = toFixed2 (js_mul (js_div (js_sub sma20 sma50) sma50) (Num 100)),
             volume_trend = volumeTrend \<rparr>)"

text \<open>
  The loop of \<open>calculateVolatility\<close> that collects the per-bar returns, from index \<open>i\<close> on.
\<close>

function returns_loop :: "MarketData list \<Rightarrow> nat \<Rightarrow> number list \<Rightarrow> error + number list" where
  "returns_loop marketData i returns =
     (if i < length marketData then
        case get_close (js_index marketData (int i)) of
          Inl e \<Rightarrow> Inl e
        | Inr c \<Rightarrow>
       (case get_close (js_index marketData (int i - 1)) of
          Inl e \<Rightarrow> Inl e
        | Inr p \<Rightarrow>
          returns_loop marketData (i + 1) (returns @ [js_div (js_sub c p) p]))
      else Inr returns)"
  by pat_completeness auto
termination
  by (relation "measure (\<lambda>(marketData, i, returns). length marketData - i)") auto

definition calculateVolatility :: "runtime \<Rightarrow> MarketData list \<Rightarrow> error + number" where
  "calculateVolatility rt marketData =
     (if length marketData < 2 then Inr (fl 0.02)
      else
        case returns_loop marketData 1 [] of
          Inl e \<Rightarrow> Inl e
        | Inr returns \<Rightarrow>
          let mean = js_div (reduce_sum returns) (js_length returns);
              variance =
                js_div
                  (foldl (\<lambda>sum ret. js_add sum (Math_pow rt (js_sub ret mean) (Num 2)))
                     (Num 0) returns)
                  (js_length returns)
          in Inr (Math_sqrt rt variance))"

section \<open>Sentiment analysis\<close>

definition positiveWords :: "js_string list" where
  "positiveWords =
     map utf16
       [''strong'', ''bullish'', ''increase'', ''growth'', ''positive'', ''gains'', ''rally'',
        ''surge'', ''adoption'']"

definition negativeWords :: "js_string list" where
  "negativeWords =
     map utf16
       [''weak'', ''bearish'', ''decrease'', ''decline'', ''negative'', ''losses'', ''crash'',
        ''drop'', ''fear'']"

text \<open>
  The inner \<open>forEach\<close> over a word list, which increments a counter at each word that the
  lower-cased snippet includes, and the outer \<open>forEach\<close> over the snippets, which carries
  the two counters. The counters stay below \<open>2^53\<close> (there are fewer than \<open>2^32\<close> snippets
  and nine words in a list), so that the increments are exact and the counters are kept
  as natural numbers.
\<close>

definition count_words :: "js_string list \<Rightarrow> js_string \<Rightarrow> nat \<Rightarrow> nat" where
  "count_words wordList lowerNews count =
     foldl (\<lambda>n word. if str_includes lowerNews word then n + 1 else n) count wordList"

definition count_news :: "runtime \<Rightarrow> js_string list \<Rightarrow> nat \<times> nat \<Rightarrow> nat \<times> nat" where
  "count_news rt newsData counts =
     foldl (\<lambda>(positiveCount, negativeCount) news.
              let lowerNews = toLowerCase rt news
              in (count_words positiveWords lowerNews positiveCount,
                  count_words negativeWords lowerNews negativeCount))
       counts newsData"

definition analyzeSentiment :: "runtime \<Rightarrow> js_string list \<Rightarrow> number" where
  "analyzeSentiment rt newsData =
     (if length newsData = 0 then Num 0.5
      else
        let (positiveCount, negativeCount) = count_news rt newsData (0, 0);
            total = positiveCount + negativeCount
        in if total = 0 then Num 0.5
           else js_div (Num (real positiveCount)) (Num (real total)))"

section \<open>Signal synthesis\<close>

text \<open>
  The choice of the action in \<open>analyzeMarket\<close>, which fixes the threshold at 0.6.
\<close>

definition select_action :: "number \<Rightarrow> number \<Rightarrow> action" where
  "select_action threshold combinedScore =
     (if js_gt combinedScore threshold then BUY
      else if js_lt combinedScore (js_sub (Num 1) threshold) then SELL
      else HOLD)"

text \<open>
  \<open>analyzeMarket\<close> takes the row that the query for the strategy returned (\<open>None\<close> when
  there is none) and the sample of \<open>Math.random()\<close> that prices an empty series.
\<close>

definition analyzeMarket ::
  "runtime \<Rightarrow> Strategy option \<Rightarrow> MarketData list \<Rightarrow> js_string list \<Rightarrow> number \<Rightarrow>
   error + AISignal" where
  "analyzeMarket rt strategy_row marketData newsData random =
     (case strategy_row of
        None \<Rightarrow> Inl StrategyNotFound
      | Some strategy \<Rightarrow>
        let symbol_v = (if length (symbols strategy) > 0 then symbols strategy ! 0
                        else utf16 ''BTC/USDT'')
        in
       (case (if length marketData > 0
              then get_close (js_index marketData (int (length marketData) - 1))
              else Inr (js_add (Num 50000) (js_mul random (Num 5000)))) of
          Inl e \<Rightarrow> Inl e
        | Inr latestPrice \<Rightarrow>
       (case calculateTechnicalScore marketData of
          Inl e \<Rightarrow> Inl e
        | Inr technicalScore \<Rightarrow>
          let sentimentScore = analyzeSentiment rt newsData;
              combinedScore =
                js_add (js_mul technicalScore (fl 0.6)) (js_mul sentimentScore (fl 0.4));
              threshold = fl 0.6;
              action_v = select_action threshold combinedScore;
              confidence_v =
                Math_min (fl 0.95) (js_mul (Math_abs (js_sub combinedScore (Num 0.5))) (Num 2))
          in
         (case calculateVolatility rt marketData of
            Inl e \<Rightarrow> Inl e
          | Inr volatility \<Rightarrow>
            let priceTarget =
                  (if action_v = BUY
                   then js_mul latestPrice (js_add (Num 1) (js_mul volatility (Num 2)))
                   else if action_v = SELL
                   then js_mul latestPrice (js_sub (Num 1) (js_mul volatility (Num 2)))
                   else latestPrice);
                stopLoss =
                  (if action_v = BUY
                   then js_mul latestPrice
                          (js_sub (Num 1) (js_div (stop_loss_percentage strategy) (Num 100)))
                   else if action_v = SELL
                   then js_mul latestPrice
                          (js_add (Num 1) (js_div (stop_loss_percentage strategy) (Num 100)))
                   else latestPrice);
                technicalIndicators = calculateTechnicalIndicators marketData;
                sentimentAnalysis =
                  \<lparr> overall_sentiment =
                      (if js_gt combinedScore (fl 0.6) then ''positive''
                       else if js_lt combinedScore (fl 0.4) then ''negative'' else ''neutral''),
                    sentiment_confidence = sentimentScore,
                    sources_analyzed = length newsData \<rparr>
            in Inr \<lparr> symbol = symbol_v,
                     action = action_v,
                     confidence = confidence_v,
                     price_target = toFixed2 priceTarget,
                     stop_loss = toFixed2 stopLoss,
                     technical_indicators = technicalIndicators,
                     sentiment_analysis = sentimentAnalysis \<rparr>))))"

section \<open>Mock market data\<close>

text \<open>
  The date of a bar. \<open>new Date()\<close> holds a time value \<open>now\<close>, in milliseconds since the epoch;
  \<open>setDate(getDate() - k)\<close> moves it back by \<open>k\<close> days (the host's time zone is UTC, as on
  the edge runtime, so that a day has 86400000 milliseconds), and the date becomes invalid
  when the time value leaves the range of \<open>8.64 * 10^15\<close> milliseconds around the epoch;
  \<open>toISOString\<close> then throws a \<open>RangeError\<close>. The printing of a valid date is the parameter
  \<open>print_date\<close>.
\<close>

definition date_days_ago :: "(int \<Rightarrow> string) \<Rightarrow> int \<Rightarrow> nat \<Rightarrow> error + string" where
  "date_days_ago print_date now k =
     (let t = now - int k * 86400000
      in if 8640000000000000 < \<bar>t\<bar> then Inl RangeError else Inr (print_date t))"

text \<open>
  The loop of \<open>generateMockMarketData\<close>, from day \<open>i\<close> on. The samples of \<open>Math.random()\<close>
  are \<open>rnd 0\<close>, \<open>rnd 1\<close>, ... in the order of the calls, five for each day (noise, volume,
  high, low, open), and \<open>clock i\<close> is the time value of the \<open>new Date()\<close> of day \<open>i\<close>.
\<close>

function gen_loop ::
  "nat \<Rightarrow> (nat \<Rightarrow> number) \<Rightarrow> (nat \<Rightarrow> int) \<Rightarrow> (int \<Rightarrow> string) \<Rightarrow> nat \<Rightarrow> MarketData list \<Rightarrow>
   error + MarketData list" where
  "gen_loop days rnd clock print_date i data =
     (if i < days then
        let basePrice = Num 50000;
            trend = js_mul (js_div (Num (real i)) (Num (real days))) (Num 5000);
            noise = js_mul (js_sub (rnd (5 * i)) (Num 0.5)) (Num 2000);
            close_v = js_add (js_add basePrice trend) noise
        in case date_days_ago print_date (clock i) (days - i) of
             Inl e \<Rightarrow> Inl e
           | Inr date_v \<Rightarrow>
             gen_loop days rnd clock print_date (i + 1)
               (data @
                [\<lparr> date = date_v,
                   close = toFixed2 close_v,
                   volume = Math_floor (js_add (Num 800000) (js_mul (rnd (5 * i + 1)) (Num 1200000))),
                   high = toFixed2 (js_add close_v (js_mul (rnd (5 * i + 2)) (Num 500))),
                   low = toFixed2 (js_sub close_v (js_mul (rnd (5 * i + 3)) (Num 500))),
                   open = toFixed2
                     (js_add close_v (js_mul (js_sub (rnd (5 * i + 4)) (Num 0.5)) (Num 200))) \<rparr>])
      else Inr data)"
  by pat_completeness auto
termination
  by (relation "measure (\<lambda>(days, rnd, clock, print_date, i, data). days - i)") auto

definition generateMockMarketData ::
  "nat \<Rightarrow> (nat \<Rightarrow> number) \<Rightarrow> (nat \<Rightarrow> int) \<Rightarrow> (int \<Rightarrow> string) \<Rightarrow> error + MarketData list" where
  "generateMockMarketData days rnd clock print_date = gen_loop days rnd clock print_date 0 []"

section \<open>Reference definitions and example inputs\<close>

text \<open>
  The finite numbers, and the finite numbers whose value lies between two bounds.
\<close>

fun is_finite :: "number \<Rightarrow> bool" where
  "is_finite (Num a) = True"
| "is_finite NegZero = True"
| "is_finite _ = False"

fun between :: "real \<Rightarrow> real \<Rightarrow> number \<Rightarrow> bool" where
  "between lo hi (Num a) = (lo \<le> a \<and> a \<le> hi)"
| "between lo hi NegZero = (lo \<le> 0 \<and> 0 \<le> hi)"
| "between lo hi _ = False"

text \<open>The value of a decimal literal of the code: the real that the nearest double denotes.\<close>

definition double :: "real \<Rightarrow> real" where
  "double x = val (fl x)"

text \<open>
  The combined score of a technical score and a sentiment score, and the latest price
  of a series (an empty series is priced from a sample of \<open>Math.random()\<close>), as the
  specification words them, in the arithmetic of JavaScript numbers.
\<close>

definition combined_score :: "number \<Rightarrow> number \<Rightarrow> number" where
  "combined_score technical_score sentiment_score =
     js_add (js_mul technical_score (fl 0.6)) (js_mul sentiment_score (fl 0.4))"

definition latest_price :: "MarketData list \<Rightarrow> number \<Rightarrow> number" where
  "latest_price marketData random =
     (if marketData = [] then js_add (Num 50000) (js_mul random (Num 5000))
      else close (last marketData))"

text \<open>
  A bar for the examples, of which only the close and the volume matter: they are the
  doubles nearest to the two decimals, as they are read from the request.
\<close>

definition bar :: "real \<Rightarrow> real \<Rightarrow> MarketData" where
  "bar c v =
     \<lparr> date = [], close = fl c, volume = fl v, high = fl c, low = fl c, open = fl c \<rparr>"

text \<open>
  A runtime for the examples, which lower-cases the letters A to Z, squares by a
  multiplication and takes the square root of a number as the nearest double.
\<close>

definition ascii_lower :: "js_string \<Rightarrow> js_string" where
  "ascii_lower s = map (\<lambda>c. if 65 \<le> c \<and> c \<le> 90 then c + 32 else c) s"

fun sqrt_number :: "number \<Rightarrow> number" where
  "sqrt_number (Num a) = (if a < 0 then NaN else if a = 0 then Num 0 else fl (sqrt a))"
| "sqrt_number NegInf = NaN"
| "sqrt_number x = x"

definition example_runtime :: runtime where
  "example_runtime =
     \<lparr> Math_pow = (\<lambda>a b. js_mul a a), Math_sqrt = sqrt_number, toLowerCase = ascii_lower \<rparr>"

text \<open>A strategy row with the defaults of the table, for the examples.\<close>

definition example_strategy :: Strategy where
  "example_strategy =
     \<lparr> symbols = [], stop_loss_percentage = Num 2, risk_level = utf16 ''medium'' \<rparr>"

text \<open>A snippet with three positive words and one negative word, and capital letters.\<close>

definition example_news :: "js_string list" where
  "example_news = [utf16 ''Strong bullish INCREASE, weak volume'']"

text \<open>
  The mean of the last \<open>min(k, n)\<close> of \<open>n\<close> numbers in the arithmetic of JavaScript
  numbers: their sum, added up from the left, divided by their count.
\<close>

definition mean_last :: "nat \<Rightarrow> number list \<Rightarrow> number" where
  "mean_last k xs =
     (let m = min k (length xs)
      in js_div (reduce_sum (drop (length xs - m) xs)) (Num (real m)))"

section \<open>Properties\<close>

subsection \<open>Rounding to the nearest double\<close>

lemma bitlen_real_bounds:
  assumes "0 < m"
  shows "2 ^ nat (bitlen m - 1) \<le> real_of_int m" "real_of_int m + 1 \<le> 2 ^ nat (bitlen m)"
proof -
  from bitlen_bounds [OF assms] have
    lo: "(2::int) ^ nat (bitlen m - 1) \<le> m" and hi: "m + 1 \<le> 2 ^ nat (bitlen m)"
    by simp_all
  from lo have "real_of_int (2 ^ nat (bitlen m - 1)) \<le> real_of_int m"
    by (rule of_int_le_iff [THEN iffD2])
  then show "2 ^ nat (bitlen m - 1) \<le> real_of_int m" by simp
  from hi have "real_of_int (m + 1) \<le> real_of_int (2 ^ nat (bitlen m))"
    by (rule of_int_le_iff [THEN iffD2])
  then show "real_of_int m + 1 \<le> 2 ^ nat (bitlen m)" by simp
qed

lemma ilog2_ge1:
  assumes "1 \<le> x"
  shows "2 powi (ilog2 x) \<le> x \<and> x < 2 powi (ilog2 x + 1)"
proof -
  have f: "0 < \<lfloor>x\<rfloor>" using assms by simp
  have b1: "1 \<le> bitlen \<lfloor>x\<rfloor>" using f by (simp add: bitlen_alt_def)
  have l: "2 ^ nat (bitlen \<lfloor>x\<rfloor> - 1) \<le> x"
    using bitlen_real_bounds(1) [OF f] of_int_floor_le [of x] by linarith
  have h: "x < 2 ^ nat (bitlen \<lfloor>x\<rfloor>)"
    using bitlen_real_bounds(2) [OF f] floor_correct [of x] by linarith
  show ?thesis
    using l h b1 assms by (simp add: ilog2_def power_int_def)
qed

lemma ilog2_lt1:
  assumes "0 < x" "x < 1"
  shows "2 powi (ilog2 x) \<le> x \<and> x < 2 powi (ilog2 x + 1)"
proof -
  define y where "y = 1 / x"
  have y1: "1 < y" using assms by (simp add: y_def)
  define m where "m = \<lceil>y\<rceil> - 1"
  have m0: "0 < m" using y1 by (simp add: m_def)
  define k where "k = bitlen m"
  have k1: "1 \<le> k" using m0 by (simp add: k_def bitlen_alt_def)
  have ym: "real_of_int m < y" "y \<le> real_of_int m + 1"
    unfolding m_def using ceiling_correct [of y] by simp_all
  have up: "y \<le> 2 ^ nat k"
    using bitlen_real_bounds(2) [OF m0] ym(2) unfolding k_def by linarith
  have lo: "2 ^ nat (k - 1) < y"
    using bitlen_real_bounds(1) [OF m0] ym(1) unfolding k_def by linarith
  have x_eq: "x = 1 / y" using assms by (simp add: y_def)
  have a: "1 / 2 ^ nat k \<le> x"
    unfolding x_eq using up y1 by (simp add: frac_le)
  have b: "x < 1 / 2 ^ nat (k - 1)"
    unfolding x_eq using lo y1 by (simp add: frac_less2)
  have i: "ilog2 x = - k"
    using assms by (simp add: ilog2_def k_def m_def y_def)
  have p1: "(2::real) powi (- k) = 1 / 2 ^ nat k"
    using k1 by (simp add: power_int_def inverse_eq_divide power_one_over)
  have p2: "(2::real) powi (- k + 1) = 1 / 2 ^ nat (k - 1)"
  proof (cases "k = 1")
    case True
    then show ?thesis by simp
  next
    case False
    then have "- k + 1 < 0" using k1 by simp
    moreover have "nat (- (- k + 1)) = nat (k - 1)" by simp
    ultimately show ?thesis
      by (simp add: power_int_def inverse_eq_divide power_one_over)
  qed
  show ?thesis unfolding i p1 p2 using a b by simp
qed

lemma ilog2_bounds:
  assumes "0 < x"
  shows "2 powi (ilog2 x) \<le> x" "x < 2 powi (ilog2 x + 1)"
  using ilog2_ge1 [of x] ilog2_lt1 [of x] assms by (cases "1 \<le> x"; simp)+

lemma ilog2_unique:
  assumes "2 powi e \<le> x" "x < 2 powi (e + 1)"
  shows "ilog2 x = e"
proof -
  have x0: "0 < x"
    using assms(1) zero_less_power_int [of "2::real" e] by linarith
  note b = ilog2_bounds [OF x0]
  have "2 powi e < (2::real) powi (ilog2 x + 1)" using assms(1) b(2) by linarith
  then have 1: "e < ilog2 x + 1"
    by (metis linorder_not_less one_le_numeral power_int_increasing)
  have "2 powi (ilog2 x) < (2::real) powi (e + 1)" using assms(2) b(1) by linarith
  then have 2: "ilog2 x < e + 1"
    by (metis linorder_not_less one_le_numeral power_int_increasing)
  show ?thesis using 1 2 by simp
qed


lemma rhe_cases:
  "round_half_even y = \<lfloor>y\<rfloor> \<or> round_half_even y = \<lfloor>y\<rfloor> + 1"
  by (simp add: round_half_even_def Let_def)

lemma rhe_near:
  assumes "\<bar>y - of_int n\<bar> < 1 / 2"
  shows "round_half_even y = n"
proof (cases "of_int n \<le> y")
  case True
  then have "\<lfloor>y\<rfloor> = n" using assms by (intro floor_unique) (auto simp: abs_if split: if_splits)
  then show ?thesis using assms True by (simp add: round_half_even_def Let_def)
next
  case False
  then have f: "\<lfloor>y\<rfloor> = n - 1"
    using assms by (intro floor_unique) (auto simp: abs_if split: if_splits)
  have "1 / 2 < y - of_int (n - 1)" using assms False by (simp add: abs_if split: if_splits)
  then show ?thesis using f by (simp add: round_half_even_def Let_def)
qed

lemma rhe_of_int [simp]: "round_half_even (of_int n) = n"
  by (rule rhe_near) simp

lemma rhe_0: "round_half_even 0 = 0"
  using rhe_of_int [of 0] by simp

lemma rhe_tie:
  assumes "y = of_int f + 1 / 2"
  shows "round_half_even y = (if even f then f else f + 1)"
proof -
  have "\<lfloor>y\<rfloor> = f" unfolding assms by (intro floor_unique) simp_all
  then show ?thesis using assms by (simp add: round_half_even_def Let_def)
qed

lemma rhe_mono:
  assumes "a \<le> b"
  shows "round_half_even a \<le> round_half_even b"
proof (cases "\<lfloor>a\<rfloor> = \<lfloor>b\<rfloor>")
  case True
  then show ?thesis using assms by (auto simp add: round_half_even_def Let_def)
next
  case False
  then have "\<lfloor>a\<rfloor> < \<lfloor>b\<rfloor>" using assms floor_mono [of a b] by linarith
  then show ?thesis using rhe_cases [of a] rhe_cases [of b] by linarith
qed

lemma rhe_uminus: "round_half_even (- y) = - round_half_even y"
proof (cases "y = of_int \<lfloor>y\<rfloor>")
  case True
  then obtain n where "y = of_int n" by blast
  then show ?thesis by (simp flip: of_int_minus)
next
  case False
  define f where "f = \<lfloor>y\<rfloor>"
  have fy: "of_int f < y" "y < of_int f + 1"
    using False floor_correct [of y] unfolding f_def by linarith+
  have nf: "\<lfloor>- y\<rfloor> = - f - 1"
    using fy by (intro floor_unique) simp_all
  show ?thesis
    using fy by (simp add: round_half_even_def Let_def nf f_def [symmetric]) 
qed


lemma pow2_pos [simp]: "0 < (2::real) powi k"
  by (simp add: zero_less_power_int)

lemma ulp_exp_uminus [simp]: "ulp_exp (- x) = ulp_exp x"
  by (simp add: ulp_exp_def)

lemma round_double_uminus: "round_double (- x) = - round_double x"
  by (simp add: round_double_def rhe_uminus)

lemma round_double_0 [simp]: "round_double 0 = 0"
  by (simp add: round_double_def)

lemma ulp_exp_normal:
  assumes "- 1074 \<le> k" "2 powi (k + 52) \<le> \<bar>x\<bar>" "\<bar>x\<bar> < 2 powi (k + 53)"
  shows "ulp_exp x = k"
proof -
  have "ilog2 \<bar>x\<bar> = k + 52"
    using assms(2,3) by (intro ilog2_unique) (simp_all add: add.assoc)
  then show ?thesis using assms(1) by (simp add: ulp_exp_def)
qed

lemma ulp_exp_subnormal:
  assumes "x \<noteq> 0" "\<bar>x\<bar> < 2 powi (- 1022)"
  shows "ulp_exp x = - 1074"
proof -
  have x0: "0 < \<bar>x\<bar>" using assms(1) by simp
  have "2 powi (ilog2 \<bar>x\<bar>) < (2::real) powi (- 1022)"
    using ilog2_bounds(1) [OF x0] assms(2) by linarith
  then have "ilog2 \<bar>x\<bar> < - 1022"
    by (metis linorder_not_less one_le_numeral power_int_increasing)
  then show ?thesis by (simp add: ulp_exp_def)
qed

lemma ulp_exp_lower: "- 1074 \<le> ulp_exp x"
  by (simp add: ulp_exp_def)

lemma ulp_exp_upper:
  assumes "x \<noteq> 0" "\<bar>x\<bar> < 2 powi (k + 53)" "- 1074 \<le> k"
  shows "ulp_exp x \<le> k"
proof -
  have x0: "0 < \<bar>x\<bar>" using assms(1) by simp
  have "2 powi (ilog2 \<bar>x\<bar>) < (2::real) powi (k + 53)"
    using ilog2_bounds(1) [OF x0] assms(2) by linarith
  then have "ilog2 \<bar>x\<bar> < k + 53"
    by (metis linorder_not_less one_le_numeral power_int_increasing)
  then show ?thesis using assms(3) by (simp add: ulp_exp_def)
qed

lemma round_double_eval:
  assumes "ulp_exp x = k" "\<bar>x / 2 powi k - of_int n\<bar> < 1 / 2"
  shows "round_double x = of_int n * 2 powi k"
proof (cases "x = 0")
  case True
  then have "n = 0" using assms(2) by simp
  then show ?thesis using True by simp
next
  case False
  then show ?thesis using assms by (simp add: round_double_def rhe_near)
qed

lemma round_double_exact:
  assumes "\<bar>m\<bar> < 2 ^ 53" "- 1074 \<le> k"
  shows "round_double (of_int m * 2 powi k) = of_int m * 2 powi k"
proof (cases "m = 0")
  case True
  then show ?thesis by simp
next
  case False
  define x where "x = real_of_int m * 2 powi k"
  have x0: "x \<noteq> 0" using False by (simp add: x_def)
  have "\<bar>x\<bar> = real_of_int \<bar>m\<bar> * 2 powi k"
    by (simp add: x_def abs_mult)
  also have "\<dots> < 2 ^ 53 * 2 powi k"
  proof -
    have "real_of_int \<bar>m\<bar> < real_of_int (2 ^ 53)"
      using assms(1) by (rule of_int_less_iff [THEN iffD2])
    then show ?thesis by simp
  qed
  also have "\<dots> = 2 powi (k + 53)"
    by (simp add: power_int_add)
  finally have ub: "\<bar>x\<bar> < 2 powi (k + 53)" .
  define j where "j = ulp_exp x"
  have jk: "j \<le> k" unfolding j_def using x0 ub assms(2) by (rule ulp_exp_upper)
  have "x / 2 powi j = real_of_int m * 2 powi (k - j)"
    by (simp add: x_def power_int_diff)
  also have "\<dots> = real_of_int (m * 2 ^ nat (k - j))"
    using jk by (simp add: power_int_def)
  finally have q: "x / 2 powi j = real_of_int (m * 2 ^ nat (k - j))" .
  have "round_double x = real_of_int (m * 2 ^ nat (k - j)) * 2 powi j"
    using x0 unfolding round_double_def j_def [symmetric] q rhe_of_int by simp
  also have "\<dots> = x"
    using q by (simp add: field_simps)
  finally show ?thesis by (simp add: x_def)
qed


lemma ilog2_mono:
  assumes "0 < x" "x \<le> y"
  shows "ilog2 x \<le> ilog2 y"
proof -
  have y0: "0 < y" using assms by simp
  have "2 powi (ilog2 x) < (2::real) powi (ilog2 y + 1)"
    using ilog2_bounds(1) [OF assms(1)] ilog2_bounds(2) [OF y0] assms(2) by linarith
  then have "ilog2 x < ilog2 y + 1"
    by (metis linorder_not_less one_le_numeral power_int_increasing)
  then show ?thesis by simp
qed

lemma round_double_pos_bounds:
  assumes "0 < x"
  shows "0 \<le> round_double x" "round_double x \<le> 2 powi (ulp_exp x + 53)"
    "- 1022 < ilog2 x \<Longrightarrow> 2 powi (ulp_exp x + 52) \<le> round_double x"
proof -
  define k where "k = ulp_exp x"
  define q where "q = x / 2 powi k"
  have q0: "0 \<le> q" using assms by (simp add: q_def)
  have rd: "round_double x = of_int (round_half_even q) * 2 powi k"
    using assms by (simp add: round_double_def k_def q_def)
  have "round_half_even 0 \<le> round_half_even q" using q0 by (rule rhe_mono)
  then have r0: "0 \<le> round_half_even q" unfolding rhe_0 .
  then show "0 \<le> round_double x" unfolding rd by simp
  have ik: "ilog2 x \<le> k + 52" using assms by (simp add: k_def ulp_exp_def)
  have "x < 2 powi (ilog2 x + 1)" using ilog2_bounds(2) [OF assms] .
  also have "\<dots> \<le> 2 powi (k + 53)"
    using ik by (intro power_int_increasing) simp_all
  finally have "x < 2 powi (k + 53)" .
  then have "q < 2 powi (k + 53) / 2 powi k"
    unfolding q_def by (simp add: divide_strict_right_mono)
  also have "\<dots> = 2 ^ 53" by (simp add: power_int_add)
  finally have "q \<le> real_of_int (2 ^ 53)" by simp
  then have "round_half_even q \<le> round_half_even (real_of_int (2 ^ 53))" by (rule rhe_mono)
  then have "round_half_even q \<le> 2 ^ 53" unfolding rhe_of_int .
  then have "real_of_int (round_half_even q) \<le> real_of_int (2 ^ 53)"
    by (rule of_int_le_iff [THEN iffD2])
  then have "real_of_int (round_half_even q) * 2 powi k \<le> 2 ^ 53 * 2 powi k"
    by (simp)
  also have "\<dots> = 2 powi (k + 53)" by (simp add: power_int_add)
  finally show "round_double x \<le> 2 powi (ulp_exp x + 53)" unfolding rd k_def .
  assume n: "- 1022 < ilog2 x"
  then have ke: "k + 52 = ilog2 x" using assms by (simp add: k_def ulp_exp_def)
  have "2 powi (k + 52) \<le> x" unfolding ke using ilog2_bounds(1) [OF assms] .
  then have "2 powi (k + 52) / 2 powi k \<le> q"
    unfolding q_def by (simp add: divide_right_mono)
  moreover have "(2::real) powi (k + 52) / 2 powi k = 2 ^ 52" by (simp add: power_int_add)
  ultimately have "real_of_int (2 ^ 52) \<le> q" by simp
  then have "round_half_even (real_of_int (2 ^ 52)) \<le> round_half_even q" by (rule rhe_mono)
  then have "2 ^ 52 \<le> round_half_even q" unfolding rhe_of_int .
  then have "real_of_int (2 ^ 52) \<le> real_of_int (round_half_even q)"
    by (rule of_int_le_iff [THEN iffD2])
  then have g: "(2::real) ^ 52 \<le> real_of_int (round_half_even q)" by simp
  have "(2::real) powi (k + 52) = 2 ^ 52 * 2 powi k" by (simp add: power_int_add)
  also have "\<dots> \<le> real_of_int (round_half_even q) * 2 powi k"
    using g by (intro mult_right_mono) simp_all
  finally show "2 powi (ulp_exp x + 52) \<le> round_double x" unfolding rd k_def .
qed

lemma round_double_mono_pos:
  assumes "0 < x" "x \<le> y"
  shows "round_double x \<le> round_double y"
proof -
  have y0: "0 < y" using assms by simp
  have le: "ulp_exp x \<le> ulp_exp y"
    using ilog2_mono [OF assms] assms y0 by (simp add: ulp_exp_def)
  show ?thesis
  proof (cases "ulp_exp x = ulp_exp y")
    case True
    have "x / 2 powi ulp_exp y \<le> y / 2 powi ulp_exp y"
      using assms(2) by (simp add: divide_right_mono)
    then have "round_half_even (x / 2 powi ulp_exp y) \<le> round_half_even (y / 2 powi ulp_exp y)"
      by (rule rhe_mono)
    then have "real_of_int (round_half_even (x / 2 powi ulp_exp y)) \<le>
        real_of_int (round_half_even (y / 2 powi ulp_exp y))"
      by (rule of_int_le_iff [THEN iffD2])
    then show ?thesis
      using assms y0 True by (simp add: round_double_def)
  next
    case False
    then have lt: "ulp_exp x < ulp_exp y" using le by simp
    then have "- 1074 < ulp_exp y" using ulp_exp_lower [of x] by linarith
    then have n: "- 1022 < ilog2 y" using y0 by (simp add: ulp_exp_def split: if_splits)
    have "round_double x \<le> 2 powi (ulp_exp x + 53)"
      using round_double_pos_bounds(2) [OF assms(1)] .
    also have "\<dots> \<le> 2 powi (ulp_exp y + 52)"
      using lt by (intro power_int_increasing) simp_all
    also have "\<dots> \<le> round_double y"
      using round_double_pos_bounds(3) [OF y0 n] .
    finally show ?thesis .
  qed
qed

lemma round_double_mono:
  assumes "x \<le> y"
  shows "round_double x \<le> round_double y"
proof -
  consider "0 < x" | "x \<le> 0" "0 \<le> y" | "y < 0" by linarith
  then show ?thesis
  proof cases
    case 1
    then show ?thesis using assms by (rule round_double_mono_pos)
  next
    case 2
    have a: "round_double x \<le> 0"
    proof (cases "x = 0")
      case True then show ?thesis by simp
    next
      case False
      then have "0 < - x" using 2 by simp
      from round_double_pos_bounds(1) [OF this] show ?thesis
        by (simp add: round_double_uminus)
    qed
    have b: "0 \<le> round_double y"
    proof (cases "y = 0")
      case True then show ?thesis by simp
    next
      case False
      then have "0 < y" using 2 by simp
      then show ?thesis by (rule round_double_pos_bounds(1))
    qed
    show ?thesis using a b by linarith
  next
    case 3
    then have "0 < - y" "- y \<le> - x" using assms by simp_all
    from round_double_mono_pos [OF this] show ?thesis
      by (simp add: round_double_uminus)
  qed
qed

subsection \<open>Evaluation and bounds of the arithmetic\<close>

lemma ulp_exp_frac:
  assumes "j \<le> 1074" "2 ^ 52 \<le> \<bar>x\<bar> * 2 ^ j" "\<bar>x\<bar> * 2 ^ j < 2 ^ 53"
  shows "ulp_exp x = - int j"
proof (rule ulp_exp_normal)
  show "- 1074 \<le> - int j" using assms(1) by simp
  have p: "(2::real) powi (- int j) = 1 / 2 ^ j"
    by (simp add: power_int_minus inverse_eq_divide)
  have "(2::real) powi (- int j + 52) = 2 powi (- int j) * 2 powi 52"
    by (rule power_int_add) simp
  also have "\<dots> = 2 ^ 52 / 2 ^ j" unfolding p by simp
  also have "\<dots> \<le> \<bar>x\<bar>" using assms(2) by (simp add: field_simps)
  finally show "2 powi (- int j + 52) \<le> \<bar>x\<bar>" .
  have "\<bar>x\<bar> < 2 ^ 53 / 2 ^ j" using assms(3) by (simp add: field_simps)
  also have "\<dots> = 2 powi (- int j) * 2 powi 53" unfolding p by simp
  also have "\<dots> = (2::real) powi (- int j + 53)"
    by (rule power_int_add [symmetric]) simp
  finally show "\<bar>x\<bar> < 2 powi (- int j + 53)" .
qed

lemma ulp_exp_int:
  assumes "2 ^ 52 * 2 ^ j \<le> \<bar>x\<bar>" "\<bar>x\<bar> < 2 ^ 53 * 2 ^ j"
  shows "ulp_exp x = int j"
proof (rule ulp_exp_normal)
  show "- 1074 \<le> int j" by simp
  have "(2::real) powi (int j + 52) = 2 ^ 52 * 2 ^ j"
    by (simp add: power_int_add)
  then show "2 powi (int j + 52) \<le> \<bar>x\<bar>" using assms(1) by simp
  have "(2::real) powi (int j + 53) = 2 ^ 53 * 2 ^ j"
    by (simp add: power_int_add)
  then show "\<bar>x\<bar> < 2 powi (int j + 53)" using assms(2) by simp
qed

lemma round_double_eval_frac:
  assumes "j \<le> 1074" "2 ^ 52 \<le> \<bar>x\<bar> * 2 ^ j" "\<bar>x\<bar> * 2 ^ j < 2 ^ 53"
    and "\<bar>x * 2 ^ j - of_int n\<bar> < 1 / 2"
  shows "round_double x = of_int n / 2 ^ j"
proof -
  have p: "(2::real) powi (- int j) = 1 / 2 ^ j"
    by (simp add: power_int_minus inverse_eq_divide)
  have "round_double x = of_int n * 2 powi (- int j)"
    using assms(4) by (intro round_double_eval ulp_exp_frac assms(1-3)) (simp add: p)
  then show ?thesis by (simp add: p)
qed

lemma round_double_eval_int:
  assumes "2 ^ 52 * 2 ^ j \<le> \<bar>x\<bar>" "\<bar>x\<bar> < 2 ^ 53 * 2 ^ j"
    and "\<bar>x / 2 ^ j - of_int n\<bar> < 1 / 2"
  shows "round_double x = of_int n * 2 ^ j"
proof -
  have "round_double x = of_int n * 2 powi (int j)"
    using assms(3) by (intro round_double_eval ulp_exp_int assms(1,2)) simp
  then show ?thesis by simp
qed

lemma round_double_tie_frac:
  assumes "j \<le> 1074" "2 ^ 52 \<le> \<bar>x\<bar> * 2 ^ j" "\<bar>x\<bar> * 2 ^ j < 2 ^ 53"
    and "x * 2 ^ j = of_int f + 1 / 2"
  shows "round_double x = of_int (if even f then f else f + 1) / 2 ^ j"
proof -
  have p: "(2::real) powi (- int j) = 1 / 2 ^ j"
    by (simp add: power_int_minus inverse_eq_divide)
  have u: "ulp_exp x = - int j" by (intro ulp_exp_frac assms(1-3))
  have x0: "x \<noteq> 0" using assms(2) by auto
  have q: "x / 2 powi (- int j) = of_int f + 1 / 2"
    using assms(4) by (simp add: p)
  show ?thesis
    using x0 by (simp add: round_double_def u p rhe_tie [OF assms(4)])
qed

lemma round_double_exact_frac:
  assumes "\<bar>m\<bar> < 2 ^ 53" "j \<le> 1074"
  shows "round_double (of_int m / 2 ^ j) = of_int m / 2 ^ j"
proof -
  have p: "(2::real) powi (- int j) = 1 / 2 ^ j"
    by (simp add: power_int_minus inverse_eq_divide)
  have "round_double (of_int m * 2 powi (- int j)) = of_int m * 2 powi (- int j)"
    using assms by (intro round_double_exact) simp_all
  then show ?thesis by (simp add: p)
qed

lemma round_double_exact_int:
  assumes "\<bar>m\<bar> < 2 ^ 53"
  shows "round_double (of_int m * 2 ^ j) = of_int m * 2 ^ j"
proof -
  have "round_double (of_int m * 2 powi (int j)) = of_int m * 2 powi (int j)"
    using assms by (intro round_double_exact) simp_all
  then show ?thesis by simp
qed

lemma fl_Num:
  assumes "round_double x = r" "r \<noteq> 0" "\<bar>r\<bar> < 2 ^ 1024"
  shows "fl x = Num r"
  using assms by (simp add: fl_def Let_def)

lemma signed_zero_simps [simp]:
  "is_finite (signed_zero n)" "val (signed_zero n) = 0" "is_zero (signed_zero n)"
  "\<not> is_nan (signed_zero n)" "\<not> is_inf (signed_zero n)"
  "signed_zero False = Num 0" "signed_zero True = NegZero"
  by (simp_all add: signed_zero_def)

lemma signed_inf_simps [simp]:
  "\<not> is_finite (signed_inf n)" "\<not> is_nan (signed_inf n)" "is_inf (signed_inf n)"
  "signed_inf False = PosInf" "signed_inf True = NegInf"
  by (simp_all add: signed_inf_def)

lemma finite_simps [simp]:
  "is_finite a \<Longrightarrow> \<not> is_nan a" "is_finite a \<Longrightarrow> \<not> is_inf a"
  by (cases a; simp)+

lemma between_finite: "between lo hi x \<Longrightarrow> is_finite x"
  by (cases x) simp_all

lemma between_val: "between lo hi x \<Longrightarrow> lo \<le> val x \<and> val x \<le> hi"
  by (cases x) simp_all

lemma between_iff: "between lo hi x \<longleftrightarrow> is_finite x \<and> lo \<le> val x \<and> val x \<le> hi"
  by (cases x) simp_all

lemma between_mono:
  "between lo hi x \<Longrightarrow> lo' \<le> lo \<Longrightarrow> hi \<le> hi' \<Longrightarrow> between lo' hi' x"
  by (cases x) simp_all

lemma between_signed_zero: "between lo hi (signed_zero n) \<longleftrightarrow> lo \<le> 0 \<and> 0 \<le> hi"
  by (simp add: signed_zero_def)

lemma round_double_nonneg: "0 \<le> x \<Longrightarrow> 0 \<le> round_double x"
  using round_double_mono [of 0 x] by simp

lemma round_double_nonpos: "x \<le> 0 \<Longrightarrow> round_double x \<le> 0"
  using round_double_mono [of x 0] by simp

lemma fl_between:
  assumes "lo \<le> x" "x \<le> hi" "- (2 ^ 1024) < round_double lo" "round_double hi < 2 ^ 1024"
  shows "between (round_double lo) (round_double hi) (fl x)"
proof -
  have l: "round_double lo \<le> round_double x" using assms(1) by (rule round_double_mono)
  have h: "round_double x \<le> round_double hi" using assms(2) by (rule round_double_mono)
  have "\<bar>round_double x\<bar> < 2 ^ 1024" using l h assms(3,4) by linarith
  then show ?thesis
    using l h by (simp add: fl_def Let_def between_signed_zero)
qed

lemma js_neg_simps [simp]:
  "is_finite (js_neg a) = is_finite a" "val (js_neg a) = - val a"
  "is_nan (js_neg a) = is_nan a" "is_inf (js_neg a) = is_inf a"
  "is_zero (js_neg a) = is_zero a"
  by (cases a; simp)+

lemma js_add_finite:
  assumes "is_finite a" "is_finite b"
  shows "js_add a b =
    (if val a + val b = 0 then signed_zero (sign_bit a \<and> sign_bit b) else fl (val a + val b))"
  using assms by (simp add: js_add_def Let_def)

lemma js_mul_finite:
  assumes "is_finite a" "is_finite b"
  shows "js_mul a b =
    (if val a * val b = 0 then signed_zero (sign_bit a \<noteq> sign_bit b) else fl (val a * val b))"
  using assms by (simp add: js_mul_def Let_def)

lemma is_zero_val: "is_finite a \<Longrightarrow> is_zero a \<longleftrightarrow> val a = 0"
  by (cases a) simp_all

lemma js_div_finite:
  assumes "is_finite a" "is_finite b" "val b \<noteq> 0"
  shows "js_div a b =
    (if val a = 0 then signed_zero (sign_bit a \<noteq> sign_bit b) else fl (val a / val b))"
  using assms by (simp add: js_div_def is_zero_val)

lemma js_add_between:
  assumes "is_finite a" "is_finite b" "lo \<le> val a + val b" "val a + val b \<le> hi"
    and "- (2 ^ 1024) < round_double lo" "round_double hi < 2 ^ 1024"
  shows "between (round_double lo) (round_double hi) (js_add a b)"
proof (cases "val a + val b = 0")
  case True
  have "round_double lo \<le> 0" "0 \<le> round_double hi"
    using assms(3,4) True by (auto intro: round_double_nonneg round_double_nonpos)
  then show ?thesis
    using True assms(1,2) by (simp add: js_add_finite between_signed_zero)
next
  case False
  then show ?thesis
    using assms by (simp add: js_add_finite fl_between)
qed

lemma js_sub_between:
  assumes "is_finite a" "is_finite b" "lo \<le> val a - val b" "val a - val b \<le> hi"
    and "- (2 ^ 1024) < round_double lo" "round_double hi < 2 ^ 1024"
  shows "between (round_double lo) (round_double hi) (js_sub a b)"
  unfolding js_sub_def using assms by (intro js_add_between) simp_all

lemma js_mul_between:
  assumes "is_finite a" "is_finite b" "lo \<le> val a * val b" "val a * val b \<le> hi"
    and "- (2 ^ 1024) < round_double lo" "round_double hi < 2 ^ 1024"
  shows "between (round_double lo) (round_double hi) (js_mul a b)"
proof (cases "val a * val b = 0")
  case True
  have "round_double lo \<le> 0" "0 \<le> round_double hi"
    using assms(3,4) True by (auto intro: round_double_nonneg round_double_nonpos)
  then show ?thesis
    using True assms(1,2) by (simp add: js_mul_finite between_signed_zero)
next
  case False
  then show ?thesis
    using assms by (simp add: js_mul_finite fl_between)
qed

lemma js_div_between:
  assumes "is_finite a" "is_finite b" "val b \<noteq> 0" "lo \<le> val a / val b" "val a / val b \<le> hi"
    and "- (2 ^ 1024) < round_double lo" "round_double hi < 2 ^ 1024"
  shows "between (round_double lo) (round_double hi) (js_div a b)"
proof (cases "val a = 0")
  case True
  have "round_double lo \<le> 0" "0 \<le> round_double hi"
    using assms(4,5) True by (auto intro: round_double_nonneg round_double_nonpos)
  then show ?thesis
    using True assms(1-3) by (simp add: js_div_finite between_signed_zero)
next
  case False
  then show ?thesis
    using assms by (simp add: js_div_finite fl_between)
qed

lemma js_add_Num: "a + b \<noteq> 0 \<Longrightarrow> js_add (Num a) (Num b) = fl (a + b)"
  by (simp add: js_add_finite)

lemma js_sub_Num: "a - b \<noteq> 0 \<Longrightarrow> js_sub (Num a) (Num b) = fl (a - b)"
  by (simp add: js_sub_def js_add_finite)

lemma js_mul_Num: "a * b \<noteq> 0 \<Longrightarrow> js_mul (Num a) (Num b) = fl (a * b)"
  by (simp add: js_mul_finite)

lemma js_div_Num: "a \<noteq> 0 \<Longrightarrow> b \<noteq> 0 \<Longrightarrow> js_div (Num a) (Num b) = fl (a / b)"
  by (simp add: js_div_finite)

lemma js_gt_Num [simp]: "js_gt (Num a) (Num b) \<longleftrightarrow> b < a"
  by (simp add: js_gt_def)

lemma js_gt_finite: "is_finite a \<Longrightarrow> is_finite b \<Longrightarrow> js_gt a b \<longleftrightarrow> val b < val a"
  by (cases a; cases b; simp add: js_gt_def)

lemma abs_div_pow2_le: "\<bar>a / 2 ^ j\<bar> \<le> \<bar>a :: real\<bar>"
proof -
  have "1 \<le> (2::real) ^ j" by simp
  then have "\<bar>a\<bar> / 2 ^ j \<le> \<bar>a\<bar> / 1"
    by (intro divide_left_mono) simp_all
  then show ?thesis by (simp add: abs_divide)
qed

lemma fl_eval_frac:
  assumes "j \<le> 1074" "2 ^ 52 \<le> \<bar>x\<bar> * 2 ^ j" "\<bar>x\<bar> * 2 ^ j < 2 ^ 53"
    and "\<bar>x * 2 ^ j - of_int n\<bar> < 1 / 2"
  shows "fl x = Num (of_int n / 2 ^ j)"
proof (rule fl_Num)
  show "round_double x = of_int n / 2 ^ j"
    using assms by (rule round_double_eval_frac)
  have "\<bar>x * 2 ^ j\<bar> = \<bar>x\<bar> * 2 ^ j" by (simp add: abs_mult)
  then have b: "2 ^ 52 - 1 / 2 < \<bar>real_of_int n\<bar>" "\<bar>real_of_int n\<bar> < 2 ^ 53 + 1 / 2"
    using assms(2-4) by linarith+
  then show "real_of_int n / 2 ^ j \<noteq> 0" by auto
  have "\<bar>real_of_int n / 2 ^ j\<bar> \<le> \<bar>real_of_int n\<bar>"
    by (rule abs_div_pow2_le)
  also have "\<dots> < 2 ^ 1024" using b(2) by simp
  finally show "\<bar>real_of_int n / 2 ^ j\<bar> < 2 ^ 1024" .
qed

lemma fl_tie_frac:
  assumes "j \<le> 1074" "2 ^ 52 \<le> \<bar>x\<bar> * 2 ^ j" "\<bar>x\<bar> * 2 ^ j < 2 ^ 53"
    and "x * 2 ^ j = of_int f + 1 / 2"
  shows "fl x = Num (of_int (if even f then f else f + 1) / 2 ^ j)"
proof (rule fl_Num)
  let ?n = "if even f then f else f + 1"
  show "round_double x = of_int ?n / 2 ^ j"
    using assms by (rule round_double_tie_frac)
  have "\<bar>x * 2 ^ j\<bar> = \<bar>x\<bar> * 2 ^ j" by (simp add: abs_mult)
  then have "2 ^ 52 - 1 < \<bar>real_of_int f\<bar>" "\<bar>real_of_int f\<bar> < 2 ^ 53 + 1"
    using assms(2-4) by linarith+
  then have b: "2 ^ 52 - 2 < \<bar>real_of_int ?n\<bar>" "\<bar>real_of_int ?n\<bar> < 2 ^ 53 + 2"
    by (auto split: if_splits)
  then show "real_of_int ?n / 2 ^ j \<noteq> 0" by auto
  have "\<bar>real_of_int ?n / 2 ^ j\<bar> \<le> \<bar>real_of_int ?n\<bar>"
    by (rule abs_div_pow2_le)
  also have "\<dots> < 2 ^ 1024" using b(2) by simp
  finally show "\<bar>real_of_int ?n / 2 ^ j\<bar> < 2 ^ 1024" .
qed

lemma fl_eval_int:
  assumes "j \<le> 960" "2 ^ 52 * 2 ^ j \<le> \<bar>x\<bar>" "\<bar>x\<bar> < 2 ^ 53 * 2 ^ j"
    and "\<bar>x / 2 ^ j - of_int n\<bar> < 1 / 2"
  shows "fl x = Num (of_int n * 2 ^ j)"
proof (rule fl_Num)
  show "round_double x = of_int n * 2 ^ j"
    using assms(2-4) by (rule round_double_eval_int)
  have "\<bar>x / 2 ^ j\<bar> = \<bar>x\<bar> / 2 ^ j" by (simp add: abs_divide)
  moreover have "2 ^ 52 \<le> \<bar>x\<bar> / 2 ^ j" "\<bar>x\<bar> / 2 ^ j < 2 ^ 53"
    using assms(2,3) by (simp_all add: field_simps)
  ultimately have b: "2 ^ 52 - 1 / 2 < \<bar>real_of_int n\<bar>" "\<bar>real_of_int n\<bar> < 2 ^ 53 + 1 / 2"
    using assms(4) by linarith+
  then show "real_of_int n * 2 ^ j \<noteq> 0" by auto
  have "\<bar>real_of_int n * 2 ^ j\<bar> = \<bar>real_of_int n\<bar> * 2 ^ j" by (simp add: abs_mult)
  also have "\<dots> \<le> 2 ^ 54 * 2 ^ j"
    using b(2) by (intro mult_right_mono) simp_all
  also have "\<dots> = (2::real) ^ (54 + j)" by (simp add: power_add)
  also have "\<dots> < 2 ^ 1024"
    using assms(1) by (intro power_strict_increasing) simp_all
  finally show "\<bar>real_of_int n * 2 ^ j\<bar> < 2 ^ 1024" .
qed

lemma fl_overflow:
  assumes "2 ^ 1024 \<le> x"
  shows "fl x = PosInf"
proof -
  have "round_double (of_int 1 * 2 powi 1024) = of_int 1 * 2 powi 1024"
    by (rule round_double_exact) simp_all
  then have "round_double (2 ^ 1024) = 2 ^ 1024" by simp
  then have "2 ^ 1024 \<le> round_double x"
    using round_double_mono [OF assms] by simp
  moreover have "\<not> x < 0" using assms by (simp add: not_less order_trans [of 0 "2 ^ 1024" x])
  ultimately show ?thesis by (simp add: fl_def Let_def)
qed

subsection \<open>Exact sums\<close>

lemma fl_exact_frac:
  assumes "m \<noteq> 0" "\<bar>m\<bar> < 2 ^ 53" "j \<le> 1074"
  shows "fl (of_int m / 2 ^ j) = Num (of_int m / 2 ^ j)"
proof (rule fl_Num)
  show "round_double (of_int m / 2 ^ j) = of_int m / 2 ^ j"
    using assms(2,3) by (rule round_double_exact_frac)
  show "real_of_int m / 2 ^ j \<noteq> 0" using assms(1) by simp
  have "\<bar>real_of_int m / 2 ^ j\<bar> \<le> \<bar>real_of_int m\<bar>" by (rule abs_div_pow2_le)
  also have "\<dots> < 2 ^ 53"
  proof -
    have "real_of_int \<bar>m\<bar> < real_of_int (2 ^ 53)" using assms(2) by (simp only: of_int_less_iff)
    then show ?thesis by simp
  qed
  also have "(2::real) ^ 53 < 2 ^ 1024" by simp
  finally show "\<bar>real_of_int m / 2 ^ j\<bar> < 2 ^ 1024" .
qed

lemma fl_exact_int:
  assumes "m \<noteq> 0" "\<bar>m\<bar> < 2 ^ 53"
  shows "fl (of_int m) = Num (of_int m)"
  using fl_exact_frac [OF assms, of 0] by simp

lemma reduce_sum_replicate:
  assumes "m \<noteq> 0" "int n * \<bar>m\<bar> < 2 ^ 53" "j \<le> 1074"
  shows "reduce_sum (replicate n (Num (of_int m / 2 ^ j))) = Num (of_int (int n * m) / 2 ^ j)"
  using assms(2)
proof (induction n)
  case 0
  show ?case by (simp add: reduce_sum_def)
next
  case (Suc n)
  have le: "int n * \<bar>m\<bar> \<le> int (Suc n) * \<bar>m\<bar>"
    by (intro mult_right_mono) simp_all
  then have ih: "reduce_sum (replicate n (Num (of_int m / 2 ^ j))) =
      Num (of_int (int n * m) / 2 ^ j)"
    using Suc by simp
  have nz: "int (Suc n) * m \<noteq> 0" using assms(1) by simp
  have ab: "\<bar>int (Suc n) * m\<bar> < 2 ^ 53"
    using Suc.prems by (simp add: abs_mult)
  have s: "real_of_int (int n * m) / 2 ^ j + real_of_int m / 2 ^ j =
      real_of_int (int (Suc n) * m) / 2 ^ j"
    by (simp add: field_simps)
  have "reduce_sum (replicate (Suc n) (Num (of_int m / 2 ^ j))) =
      js_add (reduce_sum (replicate n (Num (of_int m / 2 ^ j)))) (Num (of_int m / 2 ^ j))"
  proof -
    have "replicate (Suc n) (Num (of_int m / 2 ^ j)) =
        replicate n (Num (of_int m / 2 ^ j)) @ [Num (of_int m / 2 ^ j)]"
      by (simp add: replicate_append_same)
    then show ?thesis unfolding reduce_sum_def by (simp only: foldl_append foldl.simps)
  qed
  also have "\<dots> = fl (real_of_int (int (Suc n) * m) / 2 ^ j)"
    unfolding ih using nz s by (simp add: js_add_def del: of_int_mult of_int_add)
  also have "\<dots> = Num (real_of_int (int (Suc n) * m) / 2 ^ j)"
    using nz ab assms(3) by (rule fl_exact_frac)
  finally show ?case .
qed

subsection \<open>Constants\<close>

lemma fl_06: "fl (3 / 5) = Num (5404319552844595 / 9007199254740992)"
  using fl_eval_frac [of 53 "3 / 5" "5404319552844595"] by simp

lemma fl_04: "fl (2 / 5) = Num (3602879701896397 / 9007199254740992)"
  using fl_eval_frac [of 54 "2 / 5" "7205759403792794"] by simp

lemma fl_095: "fl (19 / 20) = Num (4278419646001971 / 4503599627370496)"
  using fl_eval_frac [of 53 "19 / 20" "8556839292003942"] by simp

lemma fl_002: "fl (1 / 50) = Num (5764607523034235 / 288230376151711744)"
  using fl_eval_frac [of 58 "1 / 50" "5764607523034235"] by simp

lemma fl_052: "fl (13 / 25) = Num (1170935903116329 / 2251799813685248)"
  using fl_eval_frac [of 53 "13 / 25" "4683743612465316"] by simp

lemma fl_024: "fl (6 / 25) = Num (1080863910568919 / 4503599627370496)"
  using fl_eval_frac [of 55 "6 / 25" "8646911284551352"] by simp

lemma fl_076: "fl (19 / 25) = Num (3422735716801577 / 4503599627370496)"
  using fl_eval_frac [of 53 "19 / 25" "6845471433603154"] by simp

lemma fl_1: "fl 1 = Num 1"
  using fl_eval_frac [of 52 1 4503599627370496] by simp

lemma fl_half: "fl (1 / 2) = Num (1 / 2)"
  using fl_eval_frac [of 53 "1 / 2" 4503599627370496] by simp

lemma one_minus_threshold: "js_sub (Num 1) (fl (3 / 5)) = fl (2 / 5)"
proof -
  have "fl (1 - 5404319552844595 / 9007199254740992) = Num (3602879701896397 / 9007199254740992)"
    using fl_eval_frac [of 54 "1 - 5404319552844595 / 9007199254740992" 7205759403792794]
    by simp
  then show ?thesis by (simp add: fl_06 fl_04 js_sub_Num)
qed

lemma score_avg_66: "js_div (js_add (fl (3 / 5)) (fl (3 / 5))) (Num 2) = fl (3 / 5)"
proof -
  have a: "fl (5404319552844595 / 4503599627370496) = Num (5404319552844595 / 4503599627370496)"
    using fl_eval_frac [of 52 "5404319552844595 / 4503599627370496" 5404319552844595] by simp
  have b: "fl (5404319552844595 / 9007199254740992) = Num (5404319552844595 / 9007199254740992)"
    using fl_eval_frac [of 53 "5404319552844595 / 9007199254740992" 5404319552844595] by simp
  show ?thesis by (simp add: fl_06 js_add_Num js_div_Num a b)
qed

lemma score_avg_44: "js_div (js_add (fl (2 / 5)) (fl (2 / 5))) (Num 2) = fl (2 / 5)"
proof -
  have a: "fl (3602879701896397 / 4503599627370496) = Num (3602879701896397 / 4503599627370496)"
    using fl_eval_frac [of 53 "3602879701896397 / 4503599627370496" 7205759403792794] by simp
  have b: "fl (3602879701896397 / 9007199254740992) = Num (3602879701896397 / 9007199254740992)"
    using fl_eval_frac [of 54 "3602879701896397 / 9007199254740992" 7205759403792794] by simp
  show ?thesis by (simp add: fl_04 js_add_Num js_div_Num a b)
qed

lemma score_avg_64: "js_div (js_add (fl (3 / 5)) (fl (2 / 5))) (Num 2) = Num (1 / 2)"
  by (simp add: fl_06 fl_04 js_add_Num js_div_Num fl_1 fl_half)

lemma score_avg_46: "js_div (js_add (fl (2 / 5)) (fl (3 / 5))) (Num 2) = Num (1 / 2)"
  by (simp add: fl_06 fl_04 js_add_Num js_div_Num fl_1 fl_half)

subsection \<open>Arrays\<close>

lemma length_slice_last: "length (slice_last k xs) = min k (length xs)"
  by (simp add: slice_last_def)

lemma js_index_last:
  assumes "xs \<noteq> []"
  shows "js_index xs (int (length xs) - 1) = Some (last xs)"
proof -
  have "nat (int (length xs) - 1) = length xs - 1" by arith
  with assms show ?thesis by (simp add: js_index_def last_conv_nth)
qed

lemma js_index_nat: "i < length xs \<Longrightarrow> js_index xs (int i) = Some (xs ! i)"
  by (simp add: js_index_def)

lemma js_index_pred:
  "1 \<le> i \<Longrightarrow> i < length xs \<Longrightarrow> js_index xs (int i - 1) = Some (xs ! (i - 1))"
  by (simp add: js_index_def nat_diff_distrib)

lemma js_index_Nil: "js_index [] i = None"
  by (simp add: js_index_def)

subsection \<open>Technical score\<close>

lemma technical_score_short:
  "length marketData < 2 \<Longrightarrow> calculateTechnicalScore marketData = Inr (Num (1 / 2))"
  by (simp add: calculateTechnicalScore_def)

lemma technical_score_unfold:
  assumes "2 \<le> length marketData"
  shows "calculateTechnicalScore marketData =
     Inr (js_div
       (js_add
         (if js_gt (close (marketData ! (length marketData - 1)))
               (js_div (reduce_sum (map close (slice_last 20 marketData)))
                  (Num (real (min 20 (length marketData)))))
          then fl (3 / 5) else fl (2 / 5))
         (if js_gt (js_div (js_sub (close (marketData ! (length marketData - 1)))
                              (close (marketData ! (length marketData - 2))))
                      (close (marketData ! (length marketData - 2)))) (Num 0)
          then fl (3 / 5) else fl (2 / 5)))
       (Num 2))"
proof -
  have ne: "marketData \<noteq> []"
    using assms by (cases marketData) simp_all
  have i1: "js_index marketData (int (length marketData) - 1) =
      Some (marketData ! (length marketData - 1))"
    using assms ne by (simp add: js_index_def nat_diff_distrib)
  have i2: "js_index marketData (int (length marketData) - 2) =
      Some (marketData ! (length marketData - 2))"
    using assms by (simp add: js_index_def nat_diff_distrib)
  show ?thesis
    using assms ne
    by (simp add: calculateTechnicalScore_def i1 i2 get_close_def Let_def js_length_def
        length_slice_last)
qed

lemma technical_score_cases:
  "calculateTechnicalScore marketData = Inr (fl (2 / 5)) \<or>
   calculateTechnicalScore marketData = Inr (Num (1 / 2)) \<or>
   calculateTechnicalScore marketData = Inr (fl (3 / 5))"
proof (cases "length marketData < 2")
  case True
  then show ?thesis by (simp add: technical_score_short)
next
  case False
  then have "2 \<le> length marketData" by simp
  then show ?thesis
    by (simp add: technical_score_unfold score_avg_66 score_avg_44 score_avg_64 score_avg_46)
qed

lemma technical_score_values:
  "\<exists>ts. calculateTechnicalScore marketData = Inr ts \<and>
     (ts = fl (2 / 5) \<or> ts = Num (1 / 2) \<or> ts = fl (3 / 5))"
  using technical_score_cases [of marketData] by blast

subsection \<open>Volatility\<close>

declare returns_loop.simps [simp del]

lemma returns_loop_returns:
  "1 \<le> i \<Longrightarrow> \<exists>rs. returns_loop marketData i returns = Inr rs"
proof (induction marketData i returns rule: returns_loop.induct)
  case (1 marketData i returns)
  show ?case
  proof (cases "i < length marketData")
    case False
    then show ?thesis by (subst returns_loop.simps) simp
  next
    case True
    have c: "get_close (js_index marketData (int i)) = Inr (close (marketData ! i))"
      using True by (simp add: get_close_def js_index_def)
    have p: "get_close (js_index marketData (int i - 1)) = Inr (close (marketData ! (i - 1)))"
      using True "1.prems" by (simp add: get_close_def js_index_def nat_diff_distrib)
    from "1.IH" [OF True c p] obtain rs where
      "returns_loop marketData (i + 1)
         (returns @ [js_div (js_sub (close (marketData ! i)) (close (marketData ! (i - 1))))
                       (close (marketData ! (i - 1)))]) = Inr rs"
      by auto
    then show ?thesis
      using True c p by (subst returns_loop.simps) simp
  qed
qed

lemma volatility_short:
  "length marketData < 2 \<Longrightarrow> calculateVolatility rt marketData = Inr (fl (1 / 50))"
  by (simp add: calculateVolatility_def)

lemma volatility_returns: "\<exists>v. calculateVolatility rt marketData = Inr v"
proof (cases "length marketData < 2")
  case True
  then show ?thesis by (simp add: calculateVolatility_def)
next
  case False
  obtain rs where "returns_loop marketData 1 [] = Inr rs"
    using returns_loop_returns [of 1 marketData "[]"] by auto
  then show ?thesis using False by (simp add: calculateVolatility_def Let_def)
qed

subsection \<open>Sentiment score\<close>

lemma sentiment_quotient_between:
  assumes "0 < t" "p \<le> t"
  shows "between 0 1 (js_div (Num (real p)) (Num (real t)))"
proof -
  have "between (round_double 0) (round_double 1) (js_div (Num (real p)) (Num (real t)))"
  proof (rule js_div_between)
    show "round_double 1 < 2 ^ 1024"
      using round_double_exact_int [of 1 0] by simp
  qed (use assms in simp_all)
  then show ?thesis using round_double_exact_int [of 1 0] by simp
qed

lemma sentiment_between: "between 0 1 (analyzeSentiment rt newsData)"
proof -
  obtain p n where c: "count_news rt newsData (0, 0) = (p, n)"
    by (cases "count_news rt newsData (0, 0)") blast
  have "between 0 1 (js_div (Num (real p)) (Num (real (p + n))))" if "0 < p + n"
    using that by (intro sentiment_quotient_between) simp_all
  then show ?thesis
    by (simp add: analyzeSentiment_def Let_def c del: of_nat_add)
qed

subsection \<open>Signal synthesis\<close>

lemma latest_price_returns:
  "(if length marketData > 0
    then get_close (js_index marketData (int (length marketData) - 1))
    else Inr (js_add (Num 50000) (js_mul random (Num 5000)))) =
   Inr (latest_price marketData random)"
proof (cases "marketData = []")
  case True
  then show ?thesis by (simp add: latest_price_def)
next
  case False
  then show ?thesis by (simp add: js_index_last get_close_def latest_price_def)
qed

lemma select_action_threshold:
  "select_action (fl (3 / 5)) c =
     (if js_gt c (fl (3 / 5)) then BUY else if js_lt c (fl (2 / 5)) then SELL else HOLD)"
  by (simp add: select_action_def one_minus_threshold)

lemma analyzeMarket_Some:
  assumes "calculateTechnicalScore marketData = Inr ts"
    and "calculateVolatility rt marketData = Inr v"
  shows "analyzeMarket rt (Some strategy) marketData newsData random =
    Inr \<lparr> symbol = (if length (symbols strategy) > 0 then symbols strategy ! 0
                     else utf16 ''BTC/USDT''),
          action = select_action (fl (3 / 5)) (combined_score ts (analyzeSentiment rt newsData)),
          confidence = Math_min (fl (19 / 20))
            (js_mul (Math_abs (js_sub (combined_score ts (analyzeSentiment rt newsData))
               (Num (1 / 2)))) (Num 2)),
          price_target = toFixed2
            (if select_action (fl (3 / 5)) (combined_score ts (analyzeSentiment rt newsData)) = BUY
             then js_mul (latest_price marketData random) (js_add (Num 1) (js_mul v (Num 2)))
             else if select_action (fl (3 / 5))
                       (combined_score ts (analyzeSentiment rt newsData)) = SELL
             then js_mul (latest_price marketData random) (js_sub (Num 1) (js_mul v (Num 2)))
             else latest_price marketData random),
          stop_loss = toFixed2
            (if select_action (fl (3 / 5)) (combined_score ts (analyzeSentiment rt newsData)) = BUY
             then js_mul (latest_price marketData random)
                    (js_sub (Num 1) (js_div (stop_loss_percentage strategy) (Num 100)))
             else if select_action (fl (3 / 5))
                       (combined_score ts (analyzeSentiment rt newsData)) = SELL
             then js_mul (latest_price marketData random)
                    (js_add (Num 1) (js_div (stop_loss_percentage strategy) (Num 100)))
             else latest_price marketData random),
          technical_indicators = calculateTechnicalIndicators marketData,
          sentiment_analysis =
            \<lparr> overall_sentiment =
                (if js_gt (combined_score ts (analyzeSentiment rt newsData)) (fl (3 / 5))
                 then ''positive''
                 else if js_lt (combined_score ts (analyzeSentiment rt newsData)) (fl (2 / 5))
                 then ''negative'' else ''neutral''),
              sentiment_confidence = analyzeSentiment rt newsData,
              sources_analyzed = length newsData \<rparr> \<rparr>"
  unfolding analyzeMarket_def latest_price_returns
  by (simp add: assms Let_def combined_score_def)

lemma analyzeMarket_fields:
  assumes "calculateTechnicalScore marketData = Inr ts"
    and "calculateVolatility rt marketData = Inr v"
  shows "\<exists>sig. analyzeMarket rt (Some strategy) marketData newsData random = Inr sig \<and>
    action sig = select_action (fl (3 / 5)) (combined_score ts (analyzeSentiment rt newsData)) \<and>
    confidence sig = Math_min (fl (19 / 20))
      (js_mul (Math_abs (js_sub (combined_score ts (analyzeSentiment rt newsData))
         (Num (1 / 2)))) (Num 2))"
  by (simp add: analyzeMarket_Some [OF assms])

subsection \<open>Combined score and confidence\<close>

lemma rd_score_lo: "round_double (19471113219505603967277331424215 / 81129638414606681695789005144064) = 1080863910568919 / 4503599627370496"
  using round_double_eval_frac [of 55 "19471113219505603967277331424215 / 81129638414606681695789005144064" "8646911284551352"] by simp

lemma rd_score_hi: "round_double (29206669829258403248756220714025 / 81129638414606681695789005144064) = 3242591731706757 / 9007199254740992"
  using round_double_eval_frac [of 54 "29206669829258403248756220714025 / 81129638414606681695789005144064" "6485183463413514"] by simp

lemma rd_04: "round_double (3602879701896397 / 9007199254740992) = 3602879701896397 / 9007199254740992"
  using round_double_eval_frac [of 54 "3602879701896397 / 9007199254740992" "7205759403792794"] by simp

lemma rd_combined_lo: "round_double (1080863910568919 / 4503599627370496) = 1080863910568919 / 4503599627370496"
  using round_double_eval_frac [of 55 "1080863910568919 / 4503599627370496" "8646911284551352"] by simp

lemma rd_combined_hi: "round_double (3422735716801577 / 4503599627370496) = 3422735716801577 / 4503599627370496"
  using round_double_eval_frac [of 53 "3422735716801577 / 4503599627370496" "6845471433603154"] by simp

lemma rd_centred_lo: "round_double (- (1170935903116329 / 4503599627370496)) = - (1170935903116329 / 4503599627370496)"
  using round_double_eval_frac [of 54 "- (1170935903116329 / 4503599627370496)" "- 4683743612465316"] by simp

lemma rd_centred_hi: "round_double (1170935903116329 / 4503599627370496) = 1170935903116329 / 4503599627370496"
  using round_double_eval_frac [of 54 "1170935903116329 / 4503599627370496" "4683743612465316"] by simp

lemma rd_confidence_hi: "round_double (1170935903116329 / 2251799813685248) = 1170935903116329 / 2251799813685248"
  using round_double_eval_frac [of 53 "1170935903116329 / 2251799813685248" "4683743612465316"] by simp

lemma double_simps:
  "double (3 / 5) = 5404319552844595 / 9007199254740992"
  "double (2 / 5) = 3602879701896397 / 9007199254740992"
  "double (6 / 25) = 1080863910568919 / 4503599627370496"
  "double (19 / 25) = 3422735716801577 / 4503599627370496"
  "double (13 / 25) = 1170935903116329 / 2251799813685248"
  "double (19 / 20) = 4278419646001971 / 4503599627370496"
  by (simp_all add: double_def fl_06 fl_04 fl_024 fl_076 fl_052 fl_095)

lemma technical_part_between:
  assumes "ts = fl (2 / 5) \<or> ts = Num (1 / 2) \<or> ts = fl (3 / 5)"
  shows "between (1080863910568919 / 4503599627370496) (3242591731706757 / 9007199254740992)
    (js_mul ts (fl (3 / 5)))"
  using assms
    js_mul_between [of ts "fl (3 / 5)"
      "19471113219505603967277331424215 / 81129638414606681695789005144064"
      "29206669829258403248756220714025 / 81129638414606681695789005144064"]
  by (auto simp add: fl_06 fl_04 rd_score_lo rd_score_hi)

lemma sentiment_part_between:
  assumes "between 0 1 s"
  shows "between 0 (3602879701896397 / 9007199254740992) (js_mul s (fl (2 / 5)))"
proof -
  have v: "0 \<le> val s" "val s \<le> 1" and f: "is_finite s"
    using assms by (simp_all add: between_iff)
  have u: "val s * (3602879701896397 / 9007199254740992) \<le>
      1 * (3602879701896397 / 9007199254740992)"
    using v(2) by (intro mult_right_mono) simp_all
  have "between (round_double 0) (round_double (3602879701896397 / 9007199254740992))
      (js_mul s (fl (2 / 5)))"
    using f v(1) u
    by (intro js_mul_between) (simp_all add: fl_04 rd_04)
  then show ?thesis by (simp add: rd_04)
qed

lemma combined_between:
  assumes "ts = fl (2 / 5) \<or> ts = Num (1 / 2) \<or> ts = fl (3 / 5)" "between 0 1 s"
  shows "between (1080863910568919 / 4503599627370496) (3422735716801577 / 4503599627370496)
    (combined_score ts s)"
proof -
  note a = technical_part_between [OF assms(1)]
  note b = sentiment_part_between [OF assms(2)]
  have "between (round_double (1080863910568919 / 4503599627370496))
      (round_double (3422735716801577 / 4503599627370496))
      (js_add (js_mul ts (fl (3 / 5))) (js_mul s (fl (2 / 5))))"
    using between_val [OF a] between_val [OF b] between_finite [OF a] between_finite [OF b]
    by (intro js_add_between) (simp_all add: rd_combined_lo rd_combined_hi)
  then show ?thesis by (simp add: combined_score_def rd_combined_lo rd_combined_hi)
qed

lemma Math_abs_between:
  assumes "between (- b) b x"
  shows "between 0 b (Math_abs x)"
  using assms by (cases x) auto

lemma centred_between:
  assumes "between (1080863910568919 / 4503599627370496) (3422735716801577 / 4503599627370496) c"
  shows "between 0 (1170935903116329 / 4503599627370496) (Math_abs (js_sub c (Num (1 / 2))))"
proof -
  have "between (round_double (- (1170935903116329 / 4503599627370496)))
      (round_double (1170935903116329 / 4503599627370496)) (js_sub c (Num (1 / 2)))"
    using between_val [OF assms] between_finite [OF assms]
    by (intro js_sub_between) (simp_all add: rd_centred_lo rd_centred_hi)
  then show ?thesis
    by (intro Math_abs_between) (simp add: rd_centred_lo rd_centred_hi)
qed

lemma doubled_between:
  assumes "between 0 (1170935903116329 / 4503599627370496) a"
  shows "between 0 (1170935903116329 / 2251799813685248) (js_mul a (Num 2))"
proof -
  have "between (round_double 0) (round_double (1170935903116329 / 2251799813685248))
      (js_mul a (Num 2))"
    using between_val [OF assms] between_finite [OF assms]
    by (intro js_mul_between) (simp_all add: rd_confidence_hi)
  then show ?thesis by (simp add: rd_confidence_hi)
qed

lemma Math_min_cap:
  assumes "between 0 (1170935903116329 / 2251799813685248) x"
  shows "Math_min (fl (19 / 20)) x = x"
proof -
  have "js_gt (fl (19 / 20)) x"
    using between_val [OF assms] between_finite [OF assms]
    by (simp add: js_gt_finite fl_095)
  then show ?thesis
    using between_finite [OF assms] by (simp add: Math_min_def fl_095)
qed

lemma select_action_cases:
  "(select_action (fl (3 / 5)) c = BUY \<longleftrightarrow> js_gt c (fl (3 / 5))) \<and>
   (select_action (fl (3 / 5)) c = SELL \<longleftrightarrow> js_lt c (fl (2 / 5))) \<and>
   (select_action (fl (3 / 5)) c = HOLD \<longleftrightarrow> \<not> js_gt c (fl (3 / 5)) \<and> \<not> js_lt c (fl (2 / 5)))"
  unfolding select_action_threshold
  by (cases c) (auto simp add: js_lt_def js_gt_def fl_06 fl_04)

subsection \<open>Example of a signal\<close>

lemma example_quotient: "js_div (Num (3)) (Num (4)) = Num (3 / 4)"
proof -
  have "fl (3 / 4) = Num (3 / 4)"
    using fl_eval_frac [of 53 "3 / 4" "6755399441055744"] by simp
  then show ?thesis by (simp add: js_div_Num)
qed

lemma example_technical_part: "js_mul (Num (1 / 2)) (Num (5404319552844595 / 9007199254740992)) = Num (5404319552844595 / 18014398509481984)"
proof -
  have "fl (5404319552844595 / 18014398509481984) = Num (5404319552844595 / 18014398509481984)"
    using fl_eval_frac [of 54 "5404319552844595 / 18014398509481984" "5404319552844595"] by simp
  then show ?thesis by (simp add: js_mul_Num)
qed

lemma example_sentiment_part: "js_mul (Num (3 / 4)) (Num (3602879701896397 / 9007199254740992)) = Num (1351079888211149 / 4503599627370496)"
proof -
  have "fl (10808639105689191 / 36028797018963968) = Num (1351079888211149 / 4503599627370496)"
    using fl_tie_frac [of 54 "10808639105689191 / 36028797018963968" 5404319552844595] by simp
  then show ?thesis by (simp add: js_mul_Num)
qed

lemma example_sum: "js_add (Num (5404319552844595 / 18014398509481984)) (Num (1351079888211149 / 4503599627370496)) = Num (1351079888211149 / 2251799813685248)"
proof -
  have "fl (10808639105689191 / 18014398509481984) = Num (1351079888211149 / 2251799813685248)"
    using fl_tie_frac [of 53 "10808639105689191 / 18014398509481984" 5404319552844595] by simp
  then show ?thesis by (simp add: js_add_Num)
qed


lemma example_lower:
  "ascii_lower (utf16 ''Strong bullish INCREASE, weak volume'') =
     utf16 ''strong bullish increase, weak volume''"
  by (simp add: ascii_lower_def utf16_def)

lemma example_counts: "count_news example_runtime example_news (0, 0) = (3, 1)"
  unfolding count_news_def example_news_def example_runtime_def
  by (simp add: example_lower Let_def)
    (simp add: count_words_def positiveWords_def negativeWords_def utf16_def)

lemma example_sentiment: "analyzeSentiment example_runtime example_news = Num (3 / 4)"
  by (simp add: analyzeSentiment_def example_counts example_quotient)
    (simp add: example_news_def)

lemma example_combined:
  "combined_score (Num (1 / 2)) (Num (3 / 4)) = Num (1351079888211149 / 2251799813685248)"
  by (simp add: combined_score_def fl_06 fl_04 example_technical_part example_sentiment_part
      example_sum)


subsection \<open>Action and confidence\<close>

text \<open>
  C1. With the threshold 0.6 of \<open>analyzeMarket\<close>, the action chosen for a combined score
  is BUY exactly when the score is greater than 0.6, SELL exactly when it is less than 0.4
  (the code compares with \<open>1 - 0.6\<close>, which is the double 0.4), and HOLD otherwise, whatever
  the score; and the signal of \<open>analyzeMarket\<close> carries the action chosen for the combined
  score \<open>technical * 0.6 + sentiment * 0.4\<close> of the two scores computed from its inputs,
  which are numbers between 0 and 1.
\<close>

theorem action_selection:
  "(select_action (fl 0.6) c = BUY \<longleftrightarrow> js_gt c (fl 0.6)) \<and>
   (select_action (fl 0.6) c = SELL \<longleftrightarrow> js_lt c (fl 0.4)) \<and>
   (select_action (fl 0.6) c = HOLD \<longleftrightarrow> \<not> js_gt c (fl 0.6) \<and> \<not> js_lt c (fl 0.4)) \<and>
   js_sub (Num 1) (fl 0.6) = fl 0.4 \<and>
   (\<exists>ts sig. calculateTechnicalScore marketData = Inr ts \<and> between 0 1 ts \<and>
      between 0 1 (analyzeSentiment rt newsData) \<and>
      analyzeMarket rt (Some strategy) marketData newsData random = Inr sig \<and>
      action sig = select_action (fl 0.6) (combined_score ts (analyzeSentiment rt newsData)))"
proof -
  obtain ts where ts: "calculateTechnicalScore marketData = Inr ts"
      "ts = fl (2 / 5) \<or> ts = Num (1 / 2) \<or> ts = fl (3 / 5)"
    using technical_score_values by blast
  obtain v where v: "calculateVolatility rt marketData = Inr v"
    using volatility_returns by blast
  have r: "between 0 1 ts" using ts(2) by (auto simp add: fl_06 fl_04)
  have "\<exists>ts sig. calculateTechnicalScore marketData = Inr ts \<and> between 0 1 ts \<and>
      between 0 1 (analyzeSentiment rt newsData) \<and>
      analyzeMarket rt (Some strategy) marketData newsData random = Inr sig \<and>
      action sig = select_action (fl (3 / 5)) (combined_score ts (analyzeSentiment rt newsData))"
    using ts(1) r sentiment_between [of rt newsData]
    by (simp add: analyzeMarket_Some [OF ts(1) v])
  then show ?thesis
    using select_action_cases [of c] one_minus_threshold by simp
qed

theorem action_selection_witness:
  "calculateTechnicalScore [bar 100 5] = Inr (Num 0.5) \<and>
   analyzeSentiment example_runtime example_news = Num 0.75 \<and>
   js_gt (combined_score (Num 0.5) (Num 0.75)) (fl 0.6) \<and>
   (\<exists>sig. analyzeMarket example_runtime (Some example_strategy) [bar 100 5] example_news
       (Num 0) = Inr sig \<and> action sig = BUY)"
proof -
  have t: "calculateTechnicalScore [bar 100 5] = Inr (Num (1 / 2))"
    by (simp add: technical_score_short)
  have g: "js_gt (combined_score (Num (1 / 2)) (Num (3 / 4))) (fl (3 / 5))"
    by (simp add: example_combined fl_06)
  note th = action_selection [of "combined_score (Num (1 / 2)) (Num (3 / 4))" "[bar 100 5]"
      example_runtime example_news example_strategy "Num 0"]
  from th g have b: "select_action (fl (3 / 5)) (combined_score (Num (1 / 2)) (Num (3 / 4))) = BUY"
    by simp
  from th obtain ts sig where e: "calculateTechnicalScore [bar 100 5] = Inr ts"
      "analyzeMarket example_runtime (Some example_strategy) [bar 100 5] example_news (Num 0) =
         Inr sig"
      "action sig =
         select_action (fl (3 / 5)) (combined_score ts (analyzeSentiment example_runtime example_news))"
    by auto
  from e(1) t have "ts = Num (1 / 2)" by simp
  with e(3) b have "action sig = BUY" by (simp add: example_sentiment)
  with e(2) t g show ?thesis by (simp add: example_sentiment)
qed

text \<open>
  C10. For every market data and news, the technical score is 0.4, 0.5 or 0.6, the
  sentiment score lies in [0, 1], the combined score lies in [0.24, 0.76], and the
  confidence of the signal is \<open>|combined - 0.5| * 2\<close>, between 0 and 0.52: the cap at 0.95
  never binds. The decimals are the doubles that the literals denote.
\<close>

theorem confidence_bound:
  "\<exists>ts sig. calculateTechnicalScore marketData = Inr ts \<and>
     (ts = fl 0.4 \<or> ts = Num 0.5 \<or> ts = fl 0.6) \<and>
     between 0 1 (analyzeSentiment rt newsData) \<and>
     between (double 0.24) (double 0.76) (combined_score ts (analyzeSentiment rt newsData)) \<and>
     analyzeMarket rt (Some strategy) marketData newsData random = Inr sig \<and>
     confidence sig =
       js_mul (Math_abs (js_sub (combined_score ts (analyzeSentiment rt newsData)) (Num 0.5)))
         (Num 2) \<and>
     between 0 (double 0.52) (confidence sig)"
proof -
  obtain ts where ts: "calculateTechnicalScore marketData = Inr ts"
      "ts = fl (2 / 5) \<or> ts = Num (1 / 2) \<or> ts = fl (3 / 5)"
    using technical_score_values by blast
  obtain v where v: "calculateVolatility rt marketData = Inr v"
    using volatility_returns by blast
  define c where "c = combined_score ts (analyzeSentiment rt newsData)"
  note s = sentiment_between [of rt newsData]
  have c1: "between (1080863910568919 / 4503599627370496)
      (3422735716801577 / 4503599627370496) c"
    unfolding c_def using ts(2) s by (rule combined_between)
  have c2: "between 0 (1170935903116329 / 2251799813685248)
      (js_mul (Math_abs (js_sub c (Num (1 / 2)))) (Num 2))"
    using c1 by (intro doubled_between centred_between)
  have m: "Math_min (fl (19 / 20)) (js_mul (Math_abs (js_sub c (Num (1 / 2)))) (Num 2)) =
      js_mul (Math_abs (js_sub c (Num (1 / 2)))) (Num 2)"
    using c2 by (rule Math_min_cap)
  show ?thesis
    using ts s c1 c2 m unfolding c_def
    by (simp add: analyzeMarket_Some [OF ts(1) v] double_simps)
qed

subsection \<open>Indicator set\<close>

lemma mean_last_slice:
  "mean_last k xs = js_div (reduce_sum (slice_last k xs)) (Num (real (min k (length xs))))"
proof -
  have "length xs - min k (length xs) = length xs - k" by simp
  then show ?thesis by (simp add: mean_last_def slice_last_def Let_def del: min_less_iff_conj)
qed

lemma last_volume:
  assumes "marketData \<noteq> []"
  shows "num_at (map volume marketData) (int (length (map volume marketData)) - 1) =
    volume (last marketData)"
proof -
  have "map volume marketData \<noteq> []" using assms by simp
  then have "js_index (map volume marketData) (int (length (map volume marketData)) - 1) =
      Some (last (map volume marketData))"
    by (rule js_index_last)
  then show ?thesis using assms by (simp add: num_at_def last_map)
qed

lemma indicators_full:
  assumes "14 \<le> length marketData"
  shows "calculateTechnicalIndicators marketData =
    \<lparr> rsi = toFixed2 (calculateRSI (map close marketData) 14),
      sma_20 = toFixed2 (js_div (reduce_sum (slice_last 20 (map close marketData))) (Num 20)),
      sma_50 = toFixed2 (mean_last 50 (map close marketData)),
      macd = toFixed2
        (js_mul
           (js_div
              (js_sub (js_div (reduce_sum (slice_last 20 (map close marketData))) (Num 20))
                 (mean_last 50 (map close marketData)))
              (mean_last 50 (map close marketData)))
           (Num 100)),
      volume_trend =
        (if js_gt (volume (last marketData))
              (js_div (reduce_sum (slice_last 20 (map volume marketData))) (Num 20))
         then ''increasing'' else ''decreasing'') \<rparr>"
proof -
  have ne: "marketData \<noteq> []" using assms by (cases marketData) simp_all
  have n14: "\<not> length marketData < 14" using assms by simp
  show ?thesis
    unfolding calculateTechnicalIndicators_def Let_def last_volume [OF ne] mean_last_slice
    using n14 by (simp del: min_less_iff_conj)
qed

lemma indicators_fallback:
  assumes "length marketData < 14"
  shows "calculateTechnicalIndicators marketData =
    \<lparr> rsi = Num 50,
      sma_20 = last_close_or_default marketData,
      sma_50 = last_close_or_default marketData,
      macd = Num 0,
      volume_trend = ''neutral'' \<rparr>"
  using assms by (simp add: calculateTechnicalIndicators_def)



lemma mean_last_20:
  "20 \<le> length xs \<Longrightarrow> mean_last 20 xs = js_div (reduce_sum (slice_last 20 xs)) (Num 20)"
  by (simp add: mean_last_slice)

lemma bar_simps: "close (bar c v) = fl c" "volume (bar c v) = fl v"
  by (simp_all add: bar_def)


lemma fl_5: "fl 5 = Num 5"
  using fl_exact_int [of 5] by simp


subsection \<open>Examples of indicator sets\<close>

lemma fl_example_volume: "fl (15234871 / 10000) = Num (6700367124866951 / 4398046511104)"
  using fl_eval_frac [of 42 "15234871 / 10000" "6700367124866951"] by simp

lemma example_volume_0: "js_add (Num 0) (Num (6700367124866951 / 4398046511104)) = Num (6700367124866951 / 4398046511104)"
proof -
  have "fl (6700367124866951 / 4398046511104) = Num (6700367124866951 / 4398046511104)"
    using fl_eval_frac [of 42 "6700367124866951 / 4398046511104" "6700367124866951"] by simp
  then show ?thesis by (simp add: js_add_Num)
qed

lemma example_volume_1: "js_add (Num (6700367124866951 / 4398046511104)) (Num (6700367124866951 / 4398046511104)) = Num (6700367124866951 / 2199023255552)"
proof -
  have "fl (6700367124866951 / 2199023255552) = Num (6700367124866951 / 2199023255552)"
    using fl_eval_frac [of 41 "6700367124866951 / 2199023255552" "6700367124866951"] by simp
  then show ?thesis by (simp add: js_add_Num)
qed

lemma example_volume_2: "js_add (Num (6700367124866951 / 2199023255552)) (Num (6700367124866951 / 4398046511104)) = Num (5025275343650213 / 1099511627776)"
proof -
  have "fl (20101101374600853 / 4398046511104) = Num (5025275343650213 / 1099511627776)"
    using fl_eval_frac [of 40 "20101101374600853 / 4398046511104" "5025275343650213"] by simp
  then show ?thesis by (simp add: js_add_Num)
qed

lemma example_volume_3: "js_add (Num (5025275343650213 / 1099511627776)) (Num (6700367124866951 / 4398046511104)) = Num (6700367124866951 / 1099511627776)"
proof -
  have "fl (26801468499467803 / 4398046511104) = Num (6700367124866951 / 1099511627776)"
    using fl_eval_frac [of 40 "26801468499467803 / 4398046511104" "6700367124866951"] by simp
  then show ?thesis by (simp add: js_add_Num)
qed

lemma example_volume_4: "js_add (Num (6700367124866951 / 1099511627776)) (Num (6700367124866951 / 4398046511104)) = Num (8375458906083689 / 1099511627776)"
proof -
  have "fl (33501835624334755 / 4398046511104) = Num (8375458906083689 / 1099511627776)"
    using fl_eval_frac [of 40 "33501835624334755 / 4398046511104" "8375458906083689"] by simp
  then show ?thesis by (simp add: js_add_Num)
qed

lemma example_volume_5: "js_add (Num (8375458906083689 / 1099511627776)) (Num (6700367124866951 / 4398046511104)) = Num (5025275343650213 / 549755813888)"
proof -
  have "fl (40202202749201707 / 4398046511104) = Num (5025275343650213 / 549755813888)"
    using fl_eval_frac [of 39 "40202202749201707 / 4398046511104" "5025275343650213"] by simp
  then show ?thesis by (simp add: js_add_Num)
qed

lemma example_volume_6: "js_add (Num (5025275343650213 / 549755813888)) (Num (6700367124866951 / 4398046511104)) = Num (2931410617129291 / 274877906944)"
proof -
  have "fl (46902569874068655 / 4398046511104) = Num (2931410617129291 / 274877906944)"
    using fl_eval_frac [of 39 "46902569874068655 / 4398046511104" "5862821234258582"] by simp
  then show ?thesis by (simp add: js_add_Num)
qed

lemma example_volume_7: "js_add (Num (2931410617129291 / 274877906944)) (Num (6700367124866951 / 4398046511104)) = Num (6700367124866951 / 549755813888)"
proof -
  have "fl (53602936998935607 / 4398046511104) = Num (6700367124866951 / 549755813888)"
    using fl_eval_frac [of 39 "53602936998935607 / 4398046511104" "6700367124866951"] by simp
  then show ?thesis by (simp add: js_add_Num)
qed

lemma example_volume_8: "js_add (Num (6700367124866951 / 549755813888)) (Num (6700367124866951 / 4398046511104)) = Num (942239126934415 / 68719476736)"
proof -
  have "fl (60303304123802559 / 4398046511104) = Num (942239126934415 / 68719476736)"
    using fl_eval_frac [of 39 "60303304123802559 / 4398046511104" "7537913015475320"] by simp
  then show ?thesis by (simp add: js_add_Num)
qed

lemma example_volume_9: "js_add (Num (942239126934415 / 68719476736)) (Num (6700367124866951 / 4398046511104)) = Num (8375458906083689 / 549755813888)"
proof -
  have "fl (67003671248669511 / 4398046511104) = Num (8375458906083689 / 549755813888)"
    using fl_eval_frac [of 39 "67003671248669511 / 4398046511104" "8375458906083689"] by simp
  then show ?thesis by (simp add: js_add_Num)
qed

lemma example_volume_10: "js_add (Num (8375458906083689 / 549755813888)) (Num (6700367124866951 / 4398046511104)) = Num (4606502398346029 / 274877906944)"
proof -
  have "fl (73704038373536463 / 4398046511104) = Num (4606502398346029 / 274877906944)"
    using fl_eval_frac [of 38 "73704038373536463 / 4398046511104" "4606502398346029"] by simp
  then show ?thesis by (simp add: js_add_Num)
qed

lemma example_volume_11: "js_add (Num (4606502398346029 / 274877906944)) (Num (6700367124866951 / 4398046511104)) = Num (5025275343650213 / 274877906944)"
proof -
  have "fl (80404405498403415 / 4398046511104) = Num (5025275343650213 / 274877906944)"
    using fl_eval_frac [of 38 "80404405498403415 / 4398046511104" "5025275343650213"] by simp
  then show ?thesis by (simp add: js_add_Num)
qed

lemma example_volume_12: "js_add (Num (5025275343650213 / 274877906944)) (Num (6700367124866951 / 4398046511104)) = Num (5444048288954397 / 274877906944)"
proof -
  have "fl (87104772623270359 / 4398046511104) = Num (5444048288954397 / 274877906944)"
    using fl_eval_frac [of 38 "87104772623270359 / 4398046511104" "5444048288954397"] by simp
  then show ?thesis by (simp add: js_add_Num)
qed

lemma example_volume_13: "js_add (Num (5444048288954397 / 274877906944)) (Num (6700367124866951 / 4398046511104)) = Num (5862821234258581 / 274877906944)"
proof -
  have "fl (93805139748137303 / 4398046511104) = Num (5862821234258581 / 274877906944)"
    using fl_eval_frac [of 38 "93805139748137303 / 4398046511104" "5862821234258581"] by simp
  then show ?thesis by (simp add: js_add_Num)
qed

lemma example_volume_14: "js_add (Num (5862821234258581 / 274877906944)) (Num (6700367124866951 / 4398046511104)) = Num (6281594179562765 / 274877906944)"
proof -
  have "fl (100505506873004247 / 4398046511104) = Num (6281594179562765 / 274877906944)"
    using fl_eval_frac [of 38 "100505506873004247 / 4398046511104" "6281594179562765"] by simp
  then show ?thesis by (simp add: js_add_Num)
qed

lemma example_volume_15: "js_add (Num (6281594179562765 / 274877906944)) (Num (6700367124866951 / 4398046511104)) = Num (6700367124866949 / 274877906944)"
proof -
  have "fl (107205873997871191 / 4398046511104) = Num (6700367124866949 / 274877906944)"
    using fl_eval_frac [of 38 "107205873997871191 / 4398046511104" "6700367124866949"] by simp
  then show ?thesis by (simp add: js_add_Num)
qed

lemma example_volume_16: "js_add (Num (6700367124866949 / 274877906944)) (Num (6700367124866951 / 4398046511104)) = Num (7119140070171133 / 274877906944)"
proof -
  have "fl (113906241122738135 / 4398046511104) = Num (7119140070171133 / 274877906944)"
    using fl_eval_frac [of 38 "113906241122738135 / 4398046511104" "7119140070171133"] by simp
  then show ?thesis by (simp add: js_add_Num)
qed

lemma example_volume_17: "js_add (Num (7119140070171133 / 274877906944)) (Num (6700367124866951 / 4398046511104)) = Num (7537913015475317 / 274877906944)"
proof -
  have "fl (120606608247605079 / 4398046511104) = Num (7537913015475317 / 274877906944)"
    using fl_eval_frac [of 38 "120606608247605079 / 4398046511104" "7537913015475317"] by simp
  then show ?thesis by (simp add: js_add_Num)
qed

lemma example_volume_18: "js_add (Num (7537913015475317 / 274877906944)) (Num (6700367124866951 / 4398046511104)) = Num (7956685960779501 / 274877906944)"
proof -
  have "fl (127306975372472023 / 4398046511104) = Num (7956685960779501 / 274877906944)"
    using fl_eval_frac [of 38 "127306975372472023 / 4398046511104" "7956685960779501"] by simp
  then show ?thesis by (simp add: js_add_Num)
qed

lemma example_volume_19: "js_add (Num (7956685960779501 / 274877906944)) (Num (6700367124866951 / 4398046511104)) = Num (8375458906083685 / 274877906944)"
proof -
  have "fl (134007342497338967 / 4398046511104) = Num (8375458906083685 / 274877906944)"
    using fl_eval_frac [of 38 "134007342497338967 / 4398046511104" "8375458906083685"] by simp
  then show ?thesis by (simp add: js_add_Num)
qed

lemma example_volume_sum: "reduce_sum (replicate 20 (Num (6700367124866951 / 4398046511104))) = Num (8375458906083685 / 274877906944)"
  unfolding reduce_sum_def
  by (simp add: eval_nat_numeral example_volume_0 example_volume_1 example_volume_2 example_volume_3 example_volume_4 example_volume_5 example_volume_6 example_volume_7 example_volume_8 example_volume_9 example_volume_10 example_volume_11 example_volume_12 example_volume_13 example_volume_14 example_volume_15 example_volume_16 example_volume_17 example_volume_18 example_volume_19)

lemma example_volume_mean: "js_div (Num (8375458906083685 / 274877906944)) (Num (20)) = Num (1675091781216737 / 1099511627776)"
proof -
  have "fl (1675091781216737 / 1099511627776) = Num (1675091781216737 / 1099511627776)"
    using fl_eval_frac [of 42 "1675091781216737 / 1099511627776" "6700367124866948"] by simp
  then show ?thesis by (simp add: js_div_Num)
qed




lemma fl_102: "fl (51 / 50) = Num (2296835809958953 / 2251799813685248)"
  using fl_eval_frac [of 52 "51 / 50" "4593671619917906"] by simp








lemma replicate_bar_simps:
  "map close (replicate n (bar c v)) = replicate n (fl c)"
  "map volume (replicate n (bar c v)) = replicate n (fl v)"
  "0 < n \<Longrightarrow> last (replicate n (bar c v)) = bar c v"
  by (simp_all add: bar_simps)

lemma slice_last_all: "length xs \<le> k \<Longrightarrow> slice_last k xs = xs"
  by (simp add: slice_last_def)









subsection \<open>Moving averages, volume trend and fallback\<close>




text \<open>
  C7, as amended. Below 14 bars the volume trend is 'neutral'. From 14 bars on it is
  'increasing' or 'decreasing', and from 20 bars on it is 'increasing' exactly when the
  latest volume is strictly greater than the mean of the last 20 volumes, computed in
  double arithmetic, and 'decreasing' otherwise.
\<close>

theorem volume_trend_values:
  "(length marketData < 14 \<longrightarrow>
      volume_trend (calculateTechnicalIndicators marketData) = ''neutral'') \<and>
   (14 \<le> length marketData \<longrightarrow>
      volume_trend (calculateTechnicalIndicators marketData) = ''increasing'' \<or>
      volume_trend (calculateTechnicalIndicators marketData) = ''decreasing'') \<and>
   (20 \<le> length marketData \<longrightarrow>
      (volume_trend (calculateTechnicalIndicators marketData) = ''increasing'' \<longleftrightarrow>
         js_gt (volume (last marketData)) (mean_last 20 (map volume marketData))) \<and>
      (volume_trend (calculateTechnicalIndicators marketData) = ''decreasing'' \<longleftrightarrow>
         \<not> js_gt (volume (last marketData)) (mean_last 20 (map volume marketData))))"
proof (intro conjI impI)
  assume "length marketData < 14"
  then show "volume_trend (calculateTechnicalIndicators marketData) = ''neutral''"
    by (simp add: indicators_fallback)
next
  assume "14 \<le> length marketData"
  then show "volume_trend (calculateTechnicalIndicators marketData) = ''increasing'' \<or>
      volume_trend (calculateTechnicalIndicators marketData) = ''decreasing''"
    by (simp add: indicators_full)
next
  assume n: "20 \<le> length marketData"
  then have l: "14 \<le> length marketData" by simp
  have m: "mean_last 20 (map volume marketData) =
      js_div (reduce_sum (slice_last 20 (map volume marketData))) (Num 20)"
    using n by (simp add: mean_last_20)
  show "volume_trend (calculateTechnicalIndicators marketData) = ''increasing'' \<longleftrightarrow>
         js_gt (volume (last marketData)) (mean_last 20 (map volume marketData))"
    unfolding indicators_full [OF l] m by simp
  show "volume_trend (calculateTechnicalIndicators marketData) = ''decreasing'' \<longleftrightarrow>
         \<not> js_gt (volume (last marketData)) (mean_last 20 (map volume marketData))"
    unfolding indicators_full [OF l] m by simp
qed

theorem volume_trend_values_witness:
  "length ([] :: MarketData list) < 14 \<and>
   volume_trend (calculateTechnicalIndicators []) = ''neutral'' \<and>
   14 \<le> length (replicate 20 (bar 100 1523.4871)) \<and>
   20 \<le> length (replicate 20 (bar 100 1523.4871)) \<and>
   volume (last (replicate 20 (bar 100 1523.4871))) = fl 1523.4871 \<and>
   mean_last 20 (map volume (replicate 20 (bar 100 1523.4871))) =
     Num (1675091781216737 / 1099511627776) \<and>
   js_gt (fl 1523.4871) (Num (1675091781216737 / 1099511627776)) \<and>
   volume_trend (calculateTechnicalIndicators (replicate 20 (bar 100 1523.4871))) = ''increasing''"
proof -
  have m: "mean_last 20 (map volume (replicate 20 (bar 100 1523.4871))) =
      Num (1675091781216737 / 1099511627776)"
    by (simp add: mean_last_20 bar_simps slice_last_all fl_example_volume
        example_volume_sum example_volume_mean)
  have v: "volume (last (replicate 20 (bar 100 1523.4871))) = fl (15234871 / 10000)"
    by (simp add: replicate_bar_simps bar_simps)
  have g: "js_gt (fl (15234871 / 10000)) (Num (1675091781216737 / 1099511627776))"
    by (simp add: fl_example_volume)
  from volume_trend_values [of "[]"] volume_trend_values [of "replicate 20 (bar 100 1523.4871)"]
  show ?thesis
    unfolding m v using g by simp
qed

text \<open>
  The empty sequence has the trend 'neutral'; and 14 bars that all have the volume 5 have
  the trend 'increasing' although the latest volume equals the mean of the volumes.
\<close>

theorem volume_trend_counterexample:
  "volume_trend (calculateTechnicalIndicators []) = ''neutral'' \<and>
   volume_trend (calculateTechnicalIndicators []) \<noteq> ''increasing'' \<and>
   volume_trend (calculateTechnicalIndicators []) \<noteq> ''decreasing'' \<and>
   volume_trend (calculateTechnicalIndicators (replicate 14 (bar 100 5))) = ''increasing'' \<and>
   volume (last (replicate 14 (bar 100 5))) = Num 5 \<and>
   mean_last 20 (map volume (replicate 14 (bar 100 5))) = Num 5 \<and>
   \<not> js_gt (volume (last (replicate 14 (bar 100 5))))
       (mean_last 20 (map volume (replicate 14 (bar 100 5))))"
proof -
  have l: "14 \<le> length (replicate 14 (bar 100 5))" by simp
  have s: "reduce_sum (replicate 14 (Num 5)) = Num 70"
    using reduce_sum_replicate [of 5 14 0] by simp
  have q: "js_div (Num 70) (Num 14) = Num 5" "js_div (Num 70) (Num 20) = Num (7 / 2)"
    using fl_exact_int [of 5] fl_exact_frac [of 7 1] by (simp_all add: js_div_Num)
  have m: "mean_last 20 (map volume (replicate 14 (bar 100 5))) = Num 5"
    by (simp add: mean_last_slice slice_last_all bar_simps fl_5 s q)
  have v: "volume (last (replicate 14 (bar 100 5))) = Num 5"
    by (simp add: bar_simps fl_5)
  have c: "slice_last 20 (map volume (replicate 14 (bar 100 5))) = replicate 14 (Num 5)"
    by (simp add: slice_last_all bar_simps fl_5)
  have n: "volume_trend (calculateTechnicalIndicators []) = ''neutral''"
    by (simp add: indicators_fallback)
  show ?thesis
    unfolding indicators_full [OF l] m v c s n by (simp add: q)
qed




end
